theory Spec2Isabelle
  imports Complex_Main "HOL-Library.Log_Nat"
begin

text \<open>
  A shallow embedding of \<^verbatim>\<open>src/index.js\<close>, a calculator service: the validator
  \<^verbatim>\<open>handleErrors\<close> and the seven request handlers registered with
  \<^verbatim>\<open>app.get\<close>. The built-ins of the language that the source calls
  (\<^verbatim>\<open>parseFloat\<close>, \<^verbatim>\<open>isNaN\<close>, the comparison and arithmetic operators,
  \<^verbatim>\<open>Number.prototype.toString\<close>, \<^verbatim>\<open>RegExp.prototype.test\<close>,
  \<^verbatim>\<open>Math.pow\<close>, \<^verbatim>\<open>Math.sqrt\<close>) are modelled after ECMAScript.
\<close>

section \<open>JavaScript numbers\<close>

text \<open>
  A Number value: not-a-number, the two infinities, negative zero, or a finite value.
  \<open>Fin 0\<close> is positive zero and \<open>Fin q\<close> the double whose real value is \<open>q\<close>; the
  values the program computes are representable, the theorems below do not need it.
\<close>

datatype jsnum = NaN | PInf | NInf | NZero | Fin rat

fun js_neg :: "jsnum \<Rightarrow> jsnum" where
  "js_neg NaN = NaN"
| "js_neg PInf = NInf"
| "js_neg NInf = PInf"
| "js_neg NZero = Fin 0"
| "js_neg (Fin q) = (if q = 0 then NZero else Fin (- q))"

text \<open>
  Rounding a rational to the nearest double, ties to even (binary64: 53 significant
  bits, least exponent \<open>- 1022\<close>, overflow from \<open>2 ^ 1024\<close>). \<open>binade q\<close> is the
  exponent \<open>e\<close> with \<open>2 ^ e \<le> q < 2 ^ (e + 1)\<close>, for positive \<open>q\<close>.
\<close>

definition binade :: "rat \<Rightarrow> int" where
  "binade q = (case quotient_of q of (a, b) \<Rightarrow>
     (let d = bitlen a - bitlen b in if power_int 2 d \<le> q then d else d - 1))"

definition round_even :: "rat \<Rightarrow> int" where
  "round_even m = (let f = \<lfloor>m\<rfloor>; d = m - of_int f in
     if d < 1 / 2 then f else if 1 / 2 < d then f + 1 else if even f then f else f + 1)"

definition fl_pos :: "rat \<Rightarrow> jsnum" where
  "fl_pos q = (let p = max (binade q) (- 1022) - 52;
                   v = of_int (round_even (q / power_int 2 p)) * power_int 2 p
               in if 2 ^ 1024 \<le> v then PInf else Fin v)"

definition fl :: "rat \<Rightarrow> jsnum" where
  "fl q = (if q = 0 then Fin 0 else if q < 0 then js_neg (fl_pos (- q)) else fl_pos q)"

section \<open>Number to string\<close>

text \<open>
  \<^verbatim>\<open>Number::toString\<close> in radix 10: the integers \<open>n\<close>, \<open>k\<close>, \<open>s\<close> with
  \<open>10 ^ (k - 1) \<le> s < 10 ^ k\<close>, \<open>s * 10 ^ (n - k)\<close> rounding to the number and \<open>k\<close>
  as small as possible (the closest \<open>s\<close> where several fit), then the four layouts of
  the digits. \<open>declen x\<close> is the number of decimal digits of a positive integer and
  \<open>dec_exp q\<close> the \<open>n\<close> with \<open>10 ^ (n - 1) \<le> q < 10 ^ n\<close>.
\<close>

function declen :: "int \<Rightarrow> int" where
  "declen x = (if 0 < x then declen (x div 10) + 1 else 0)"
  by pat_completeness auto
termination
  by (relation "measure nat") auto

declare declen.simps [simp del]

definition dec_exp :: "rat \<Rightarrow> int" where
  "dec_exp q = (case quotient_of q of (a, b) \<Rightarrow>
     (let d = declen a - declen b in if q < power_int 10 d then d else d + 1))"

definition try_digits :: "rat \<Rightarrow> nat \<Rightarrow> (int \<times> int) option" where
  "try_digits v k =
     (let n = dec_exp v; u = power_int 10 (n - int k);
          lo = \<lfloor>v / u\<rfloor>; hi = lo + 1;
          ok_lo = (fl_pos (of_int lo * u) = Fin v);
          ok_hi = (fl_pos (of_int hi * u) = Fin v);
          d_lo = v - of_int lo * u; d_hi = of_int hi * u - v;
          pick_hi = (if ok_hi then (if ok_lo then d_hi < d_lo \<or> (d_hi = d_lo \<and> even hi) else True)
                     else False)
      in if pick_hi then Some (if hi = 10 ^ k then (n + 1, 10 ^ (k - 1)) else (n, hi))
         else if ok_lo then Some (n, lo) else None)"

fun shortest :: "rat \<Rightarrow> nat list \<Rightarrow> (nat \<times> int \<times> int) option" where
  "shortest v [] = None"
| "shortest v (k # ks) =
     (case try_digits v k of Some (n, s) \<Rightarrow> Some (k, n, s) | None \<Rightarrow> shortest v ks)"

definition digit_char :: "int \<Rightarrow> char" where
  "digit_char d = char_of (48 + d)"

function dec_str :: "int \<Rightarrow> string" where
  "dec_str n = (if n < 10 then [digit_char n] else dec_str (n div 10) @ [digit_char (n mod 10)])"
  by pat_completeness auto
termination
  by (relation "measure nat") auto

declare dec_str.simps [simp del]

definition format_digits :: "nat \<Rightarrow> int \<Rightarrow> int \<Rightarrow> string" where
  "format_digits k n s =
     (let ds = dec_str s in
      if int k \<le> n \<and> n \<le> 21 then ds @ replicate (nat (n - int k)) CHR ''0''
      else if 0 < n \<and> n \<le> 21 then take (nat n) ds @ ''.'' @ drop (nat n) ds
      else if - 6 < n \<and> n \<le> 0 then ''0.'' @ replicate (nat (- n)) CHR ''0'' @ ds
      else
        (let es = (if n - 1 < 0 then ''-'' else ''+'') @ dec_str \<bar>n - 1\<bar>
         in if k = 1 then ds @ ''e'' @ es
            else take 1 ds @ ''.'' @ drop 1 ds @ ''e'' @ es))"

text \<open>
  Seventeen digits always identify a double; the second branch is only reached by a
  \<open>Fin q\<close> that is no double.
\<close>

definition pos_to_string :: "rat \<Rightarrow> string" where
  "pos_to_string v =
     (case shortest v [1..<18] of
        Some (k, n, s) \<Rightarrow> format_digits k n s
      | None \<Rightarrow> format_digits 17 (dec_exp v) \<lfloor>v / power_int 10 (dec_exp v - 17)\<rfloor>)"

fun toString :: "jsnum \<Rightarrow> string" where
  "toString NaN = ''NaN''"
| "toString PInf = ''Infinity''"
| "toString NInf = ''-Infinity''"
| "toString NZero = ''0''"
| "toString (Fin q) =
     (if q = 0 then ''0'' else if q < 0 then ''-'' @ pos_to_string (- q) else pos_to_string q)"

section \<open>Comparison and arithmetic\<close>

text \<open>
  \<^verbatim>\<open><\<close>, \<^verbatim>\<open>>\<close> and \<^verbatim>\<open>==\<close> on Numbers: every comparison with
  \<open>NaN\<close> is false and the two zeros are equal.
\<close>

definition isNaN :: "jsnum \<Rightarrow> bool" where
  "isNaN x = (x = NaN)"

fun is_inf :: "jsnum \<Rightarrow> bool" where
  "is_inf PInf = True"
| "is_inf NInf = True"
| "is_inf _ = False"

fun value_of :: "jsnum \<Rightarrow> rat" where
  "value_of (Fin q) = q"
| "value_of _ = 0"

definition is_zero :: "jsnum \<Rightarrow> bool" where
  "is_zero x = (x = NZero \<or> x = Fin 0)"

fun is_neg :: "jsnum \<Rightarrow> bool" where
  "is_neg NInf = True"
| "is_neg NZero = True"
| "is_neg (Fin q) = (q < 0)"
| "is_neg _ = False"

fun js_lt :: "jsnum \<Rightarrow> jsnum \<Rightarrow> bool" where
  "js_lt NaN _ = False"
| "js_lt _ NaN = False"
| "js_lt PInf _ = False"
| "js_lt _ NInf = False"
| "js_lt NInf _ = True"
| "js_lt _ PInf = True"
| "js_lt x y = (value_of x < value_of y)"

definition js_gt :: "jsnum \<Rightarrow> jsnum \<Rightarrow> bool" where
  "js_gt x y = js_lt y x"

fun js_eq :: "jsnum \<Rightarrow> jsnum \<Rightarrow> bool" where
  "js_eq NaN _ = False"
| "js_eq _ NaN = False"
| "js_eq PInf y = (y = PInf)"
| "js_eq NInf y = (y = NInf)"
| "js_eq x PInf = False"
| "js_eq x NInf = False"
| "js_eq x y = (value_of x = value_of y)"

definition MAX_SAFE_INTEGER :: jsnum where
  "MAX_SAFE_INTEGER = Fin (2 ^ 53 - 1)"

definition MIN_SAFE_INTEGER :: jsnum where
  "MIN_SAFE_INTEGER = Fin (- (2 ^ 53 - 1))"

text \<open>
  The arithmetic operators: the special cases of ECMAScript, and the exact result
  rounded by \<open>fl\<close> otherwise.
\<close>

definition signed :: "bool \<Rightarrow> jsnum \<Rightarrow> jsnum" where
  "signed neg x = (if neg then js_neg x else x)"

definition js_add :: "jsnum \<Rightarrow> jsnum \<Rightarrow> jsnum" where
  "js_add x y =
     (if isNaN x \<or> isNaN y then NaN
      else if is_inf x then (if is_inf y \<and> x \<noteq> y then NaN else x)
      else if is_inf y then y
      else if x = NZero \<and> y = NZero then NZero
      else if value_of x + value_of y = 0 then Fin 0
      else fl (value_of x + value_of y))"

definition js_sub :: "jsnum \<Rightarrow> jsnum \<Rightarrow> jsnum" where
  "js_sub x y = js_add x (js_neg y)"

definition js_mul :: "jsnum \<Rightarrow> jsnum \<Rightarrow> jsnum" where
  "js_mul x y =
     (if isNaN x \<or> isNaN y then NaN
      else if is_inf x \<or> is_inf y then
        (if is_zero x \<or> is_zero y then NaN else signed (is_neg x \<noteq> is_neg y) PInf)
      else signed (is_neg x \<noteq> is_neg y) (fl (\<bar>value_of x\<bar> * \<bar>value_of y\<bar>)))"

definition js_div :: "jsnum \<Rightarrow> jsnum \<Rightarrow> jsnum" where
  "js_div x y =
     (if isNaN x \<or> isNaN y then NaN
      else if is_inf x then (if is_inf y then NaN else signed (is_neg x \<noteq> is_neg y) PInf)
      else if is_inf y then signed (is_neg x \<noteq> is_neg y) (Fin 0)
      else if is_zero y then (if is_zero x then NaN else signed (is_neg x \<noteq> is_neg y) PInf)
      else signed (is_neg x \<noteq> is_neg y) (fl (\<bar>value_of x\<bar> / \<bar>value_of y\<bar>)))"

definition trunc :: "rat \<Rightarrow> int" where
  "trunc q = (if q < 0 then - \<lfloor>- q\<rfloor> else \<lfloor>q\<rfloor>)"

definition js_mod :: "jsnum \<Rightarrow> jsnum \<Rightarrow> jsnum" where
  "js_mod n d =
     (if isNaN n \<or> isNaN d then NaN
      else if is_inf n then NaN
      else if is_inf d then n
      else if is_zero d then NaN
      else if is_zero n then n
      else (let r = value_of n - value_of d * of_int (trunc (value_of n / value_of d))
            in if r = 0 then (if value_of n < 0 then NZero else Fin 0) else fl r))"

text \<open>
  \<^verbatim>\<open>Math.sqrt\<close>, correctly rounded: with \<open>p\<close> the exponent of the last bit of the
  root, \<open>m\<close> is the integer part of \<open>sqrt q / 2 ^ p\<close> and the comparison of
  \<open>q / 4 ^ p\<close> with \<open>(m + 1/2)\<^sup>2\<close> decides the rounding.
\<close>

function isqrt :: "int \<Rightarrow> int" where
  "isqrt n = (if n < 1 then 0
              else (let r = 2 * isqrt (n div 4) in if (r + 1) * (r + 1) \<le> n then r + 1 else r))"
  by pat_completeness auto
termination
  by (relation "measure nat") auto

declare isqrt.simps [simp del]

definition sqrt_pos :: "rat \<Rightarrow> jsnum" where
  "sqrt_pos q =
     (let p = binade q div 2 - 52; t = q / power_int 4 p; m = isqrt \<lfloor>t\<rfloor>;
          h = of_int (m * m + m) + 1 / 4;
          r = (if t < h then m else if h < t then m + 1 else if even m then m else m + 1)
      in Fin (of_int r * power_int 2 p))"

fun js_sqrt :: "jsnum \<Rightarrow> jsnum" where
  "js_sqrt NaN = NaN"
| "js_sqrt PInf = PInf"
| "js_sqrt NInf = NaN"
| "js_sqrt NZero = NZero"
| "js_sqrt (Fin q) = (if q < 0 then NaN else if q = 0 then Fin 0 else sqrt_pos q)"

text \<open>
  \<^verbatim>\<open>Math.pow\<close> (\<^verbatim>\<open>Number::exponentiate\<close>). ECMAScript fixes the results for
  \<open>NaN\<close>, the zeros, the infinities and a negative base with a fractional exponent,
  and leaves every other power of a finite base other than zero to the implementation
  (an approximation of the power, which need not be the nearest double): that case is
  the parameter \<open>approx\<close>, for integer exponents too.
\<close>

definition is_integral :: "rat \<Rightarrow> bool" where
  "is_integral q = (of_int \<lfloor>q\<rfloor> = q)"

definition odd_integer :: "jsnum \<Rightarrow> bool" where
  "odd_integer x = (case x of Fin q \<Rightarrow> is_integral q \<and> odd \<lfloor>q\<rfloor> | _ \<Rightarrow> False)"

definition js_pow :: "(rat \<Rightarrow> rat \<Rightarrow> jsnum) \<Rightarrow> jsnum \<Rightarrow> jsnum \<Rightarrow> jsnum" where
  "js_pow approx base exponent =
     (if isNaN exponent then NaN
      else if is_zero exponent then Fin 1
      else case base of
        NaN \<Rightarrow> NaN
      | PInf \<Rightarrow> (if js_gt exponent (Fin 0) then PInf else Fin 0)
      | NInf \<Rightarrow>
          (if js_gt exponent (Fin 0) then (if odd_integer exponent then NInf else PInf)
           else (if odd_integer exponent then NZero else Fin 0))
      | NZero \<Rightarrow>
          (if js_gt exponent (Fin 0) then (if odd_integer exponent then NZero else Fin 0)
           else (if odd_integer exponent then NInf else PInf))
      | Fin b \<Rightarrow>
          (if b = 0 then (if js_gt exponent (Fin 0) then Fin 0 else PInf)
           else case exponent of
             PInf \<Rightarrow> (if 1 < \<bar>b\<bar> then PInf else if \<bar>b\<bar> = 1 then NaN else Fin 0)
           | NInf \<Rightarrow> (if 1 < \<bar>b\<bar> then Fin 0 else if \<bar>b\<bar> = 1 then NaN else PInf)
           | Fin e \<Rightarrow> (if b < 0 \<and> \<not> is_integral e then NaN else approx b e)
           | _ \<Rightarrow> NaN))"

section \<open>String to number\<close>

text \<open>
  Strings are lists of characters with codes below 256. \<^verbatim>\<open>parseFloat\<close> converts
  its argument to a string (\<^verbatim>\<open>undefined\<close>, an absent query parameter, becomes
  \<^verbatim>\<open>"undefined"\<close>), skips leading white space and reads the longest prefix that
  is a \<^verbatim>\<open>StrDecimalLiteral\<close>; without such a prefix the result is \<open>NaN\<close>. The
  value of the literal is rounded to the nearest double (ECMAScript lets an
  implementation drop the digits after the twentieth significant one; the model does
  not). \<open>StringToNumber\<close> is the conversion that the comparison of a string with a
  number applies: the whole trimmed string has to be a numeric literal.
\<close>

definition is_digit :: "char \<Rightarrow> bool" where
  "is_digit c = (48 \<le> (of_char c :: nat) \<and> (of_char c :: nat) \<le> 57)"

definition is_ws :: "char \<Rightarrow> bool" where
  "is_ws c = ((of_char c :: nat) \<in> {9, 10, 11, 12, 13, 32, 160})"

definition digit_val :: "char \<Rightarrow> int" where
  "digit_val c =
     (if is_digit c then of_char c - 48
      else if 97 \<le> (of_char c :: nat) \<and> (of_char c :: nat) \<le> 102 then of_char c - 87
      else of_char c - 55)"

definition digits_val :: "int \<Rightarrow> string \<Rightarrow> int" where
  "digits_val base ds = foldl (\<lambda>acc c. acc * base + digit_val c) 0 ds"

definition signed_integer :: "string \<Rightarrow> (int \<times> string) option" where
  "signed_integer t =
     (let u = (case t of [] \<Rightarrow> [] | c # t' \<Rightarrow> if c = CHR ''+'' \<or> c = CHR ''-'' then t' else t);
          ds = takeWhile is_digit u
      in if ds = [] then None
         else Some ((if take 1 t = ''-'' then - 1 else 1) * digits_val 10 ds, dropWhile is_digit u))"

definition exponent_part :: "string \<Rightarrow> int \<times> string" where
  "exponent_part r =
     (case r of
        [] \<Rightarrow> (0, r)
      | c # t \<Rightarrow>
          if c = CHR ''e'' \<or> c = CHR ''E'' then
            (case signed_integer t of None \<Rightarrow> (0, r) | Some (e, rest) \<Rightarrow> (e, rest))
          else (0, r))"

definition unsigned_literal :: "string \<Rightarrow> (jsnum \<times> string) option" where
  "unsigned_literal s =
     (if take 8 s = ''Infinity'' then Some (PInf, drop 8 s)
      else
        (let ip = takeWhile is_digit s; r1 = dropWhile is_digit s;
             has_dot = (take 1 r1 = ''.'');
             fp = (if has_dot then takeWhile is_digit (drop 1 r1) else []);
             r2 = (if has_dot then dropWhile is_digit (drop 1 r1) else r1)
         in if ip = [] \<and> fp = [] then None
            else (case exponent_part r2 of (e, rest) \<Rightarrow>
              Some (fl (of_int (digits_val 10 (ip @ fp)) / 10 ^ length fp * power_int 10 e), rest))))"

definition decimal_literal :: "string \<Rightarrow> (jsnum \<times> string) option" where
  "decimal_literal t =
     (case t of
        [] \<Rightarrow> None
      | c # r \<Rightarrow>
          if c = CHR ''-'' then map_option (\<lambda>(v, rest). (js_neg v, rest)) (unsigned_literal r)
          else if c = CHR ''+'' then unsigned_literal r
          else unsigned_literal t)"

definition parseFloat_str :: "string \<Rightarrow> jsnum" where
  "parseFloat_str s =
     (case decimal_literal (dropWhile is_ws s) of None \<Rightarrow> NaN | Some (v, rest) \<Rightarrow> v)"

definition parseFloat :: "string option \<Rightarrow> jsnum" where
  "parseFloat a = parseFloat_str (case a of None \<Rightarrow> ''undefined'' | Some s \<Rightarrow> s)"

definition radix_digit :: "int \<Rightarrow> char \<Rightarrow> bool" where
  "radix_digit base c =
     (if base = 16 then
        is_digit c \<or> (97 \<le> (of_char c :: nat) \<and> (of_char c :: nat) \<le> 102)
                  \<or> (65 \<le> (of_char c :: nat) \<and> (of_char c :: nat) \<le> 70)
      else is_digit c \<and> digit_val c < base)"

definition non_decimal_literal :: "string \<Rightarrow> jsnum" where
  "non_decimal_literal t =
     (case t of
        c0 # c1 # ds \<Rightarrow>
          (let base = (if c1 = CHR ''x'' \<or> c1 = CHR ''X'' then 16
                       else if c1 = CHR ''o'' \<or> c1 = CHR ''O'' then 8
                       else if c1 = CHR ''b'' \<or> c1 = CHR ''B'' then 2 else 0)
           in if c0 = CHR ''0'' \<and> base \<noteq> 0 \<and> ds \<noteq> [] \<and> list_all (radix_digit base) ds
              then fl (of_int (digits_val base ds)) else NaN)
      | _ \<Rightarrow> NaN)"

definition StringToNumber :: "string \<Rightarrow> jsnum" where
  "StringToNumber s =
     (let t = rev (dropWhile is_ws (rev (dropWhile is_ws s)))
      in if t = [] then Fin 0
         else case decimal_literal t of
                Some (v, []) \<Rightarrow> v
              | _ \<Rightarrow> non_decimal_literal t)"

section \<open>The pattern test\<close>

text \<open>
  \<^verbatim>\<open>/\d+\.\d+/.test(s)\<close>: somewhere in \<open>s\<close>, one or more digits, a dot, one or more
  digits.
\<close>

definition match_here :: "string \<Rightarrow> bool" where
  "match_here s =
     (let r = dropWhile is_digit s
      in takeWhile is_digit s \<noteq> [] \<and> take 1 r = ''.'' \<and> takeWhile is_digit (drop 1 r) \<noteq> [])"

fun regex_test :: "string \<Rightarrow> bool" where
  "regex_test [] = False"
| "regex_test (c # cs) = (match_here (c # cs) \<or> regex_test cs)"

section \<open>Program state and the logger\<close>

text \<open>
  What a call can change: the records written by the logger (the source logs at the
  levels error and info), and the global variable \<^verbatim>\<open>n2\<close>, which the assignment
  \<^verbatim>\<open>n2 = num2.toString()\<close> in \<^verbatim>\<open>handleErrors\<close> creates, as \<^verbatim>\<open>n2\<close> is
  declared nowhere and the module is not in strict mode.
\<close>

datatype level = Error | Info

record state =
  logs :: "(level \<times> string) list"
  global_n2 :: "string option"

definition logger_error :: "string \<Rightarrow> state \<Rightarrow> state" where
  "logger_error msg s = s\<lparr>logs := logs s @ [(Error, msg)]\<rparr>"

definition logger_info :: "string \<Rightarrow> state \<Rightarrow> state" where
  "logger_info msg s = s\<lparr>logs := logs s @ [(Info, msg)]\<rparr>"

section \<open>The validator\<close>

text \<open>
  \<^verbatim>\<open>handleErrors\<close> returns one of the numbers 0 to 6, or nothing: the branches for
  \<^verbatim>\<open>"^"\<close> and \<^verbatim>\<open>"sqrt"\<close> end without a return statement when their inner
  tests fail, and the call evaluates to \<^verbatim>\<open>undefined\<close>. In the second test,
  \<^verbatim>\<open>operator == "/" || operator == "%" && num2 == 0\<close>, \<^verbatim>\<open>&&\<close> binds tighter
  than \<^verbatim>\<open>||\<close>.
\<close>

datatype retval = Code nat | Undefined

definition handleErrors :: "string \<Rightarrow> jsnum \<Rightarrow> jsnum \<Rightarrow> state \<Rightarrow> retval \<times> state" where
  "handleErrors operator num1 num2 s =
     (if isNaN num1 \<or> isNaN num2 then
        (Code 1, logger_error ''Invalid input: Input parameters are not numbers'' s)
      else if operator = ''/'' \<or> operator = ''%'' \<and> js_eq num2 (Fin 0) then
        (Code 2, logger_error ''Zero division: Division by 0 is not possible'' s)
      else if js_gt num1 MAX_SAFE_INTEGER \<or> js_lt num1 MIN_SAFE_INTEGER
            \<or> js_gt num2 MAX_SAFE_INTEGER \<or> js_lt num2 MIN_SAFE_INTEGER then
        (Code 3, logger_error
           ''Range exceeded: Input parameters have exceeded min/max range limits'' s)
      else if operator = ''^'' then
        (let n2 = toString num2; s1 = s\<lparr>global_n2 := Some n2\<rparr>
         in if js_lt num1 (Fin 0) \<and> regex_test n2 then
              (Code 4, logger_error
                 ''Negative exponential error: Base is negative and exponent is a fraction'' s1)
            else if js_eq num1 (Fin 0) \<and> js_lt (StringToNumber n2) (Fin 0) \<and> regex_test n2 then
              (Code 5, logger_error
                 ''Zero exponential error: Base is 0 and exponent is a negative fraction'' s1)
            else (Undefined, s1))
      else if operator = ''sqrt'' then
        (if js_lt num1 (Fin 0) then
           (Code 6, logger_error ''Negative square root: Input number is negative'' s)
         else (Undefined, s))
      else (Code 0, s))"

section \<open>Request handlers\<close>

text \<open>
  A request is its query, a map from parameter names to text (a parameter that the
  query parser delivers as an array or an object is converted to text by
  \<^verbatim>\<open>parseFloat\<close> before anything else, so that text stands for it); a response is
  the status and the object handed to \<^verbatim>\<open>res.json\<close> (status 200 where the source
  sets none).
  A handler compares \<^verbatim>\<open>validate\<close> with numbers by \<^verbatim>\<open>==\<close>, which is false for
  \<^verbatim>\<open>undefined\<close>.
\<close>

type_synonym query = "string \<rightharpoonup> string"

datatype payload = Result jsnum | Message string

datatype response = Response nat payload

definition add_handler :: "query \<Rightarrow> state \<Rightarrow> response \<times> state" where
  "add_handler q s =
     (let num1 = parseFloat (q ''num1''); num2 = parseFloat (q ''num2'')
      in case handleErrors ''+'' num1 num2 s of (validate, s1) \<Rightarrow>
        if validate = Code 1 then
          (Response 400 (Message ''num1 and num2 must be numbers''), s1)
        else if validate = Code 3 then
          (Response 400 (Message ''Either numbers are too large or too small''), s1)
        else
          (let result = js_add num1 num2
           in (Response 200 (Result result),
               logger_info (''Addition: '' @ toString num1 @ '' + '' @ toString num2
                            @ '' = '' @ toString result) s1)))"

definition sub_handler :: "query \<Rightarrow> state \<Rightarrow> response \<times> state" where
  "sub_handler q s =
     (let num1 = parseFloat (q ''num1''); num2 = parseFloat (q ''num2'')
      in case handleErrors ''-'' num1 num2 s of (validate, s1) \<Rightarrow>
        if validate = Code 1 then
          (Response 400 (Message ''num1 and num2 must be numbers''), s1)
        else if validate = Code 3 then
          (Response 400 (Message ''Either numbers are too large or too small''), s1)
        else
          (let result = js_sub num1 num2
           in (Response 200 (Result result),
               logger_info (''Subtraction: '' @ toString num1 @ '' - '' @ toString num2
                            @ '' = '' @ toString result) s1)))"

definition mul_handler :: "query \<Rightarrow> state \<Rightarrow> response \<times> state" where
  "mul_handler q s =
     (let num1 = parseFloat (q ''num1''); num2 = parseFloat (q ''num2'')
      in case handleErrors ''*'' num1 num2 s of (validate, s1) \<Rightarrow>
        if validate = Code 1 then
          (Response 400 (Message ''num1 and num2 must be numbers''), s1)
        else if validate = Code 3 then
          (Response 400 (Message ''Either numbers are too large or too small''), s1)
        else
          (let result = js_mul num1 num2
           in (Response 200 (Result result),
               logger_info (''Multiplication: '' @ toString num1 @ '' * '' @ toString num2
                            @ '' = '' @ toString result) s1)))"

definition div_handler :: "query \<Rightarrow> state \<Rightarrow> response \<times> state" where
  "div_handler q s =
     (let num1 = parseFloat (q ''num1''); num2 = parseFloat (q ''num2'')
      in case handleErrors ''/'' num1 num2 s of (validate, s1) \<Rightarrow>
        if validate = Code 1 then
          (Response 400 (Message ''num1 and num2 must be numbers''), s1)
        else if validate = Code 2 then
          (Response 400 (Message ''Denominator cannot be 0 in division''), s1)
        else if validate = Code 3 then
          (Response 400 (Message ''Either numbers are too large or too small''), s1)
        else
          (let result = js_div num1 num2
           in (Response 200 (Result result),
               logger_info (''Division: '' @ toString num1 @ '' / '' @ toString num2
                            @ '' = '' @ toString result) s1)))"

definition exp_handler :: "(rat \<Rightarrow> rat \<Rightarrow> jsnum) \<Rightarrow> query \<Rightarrow> state \<Rightarrow> response \<times> state" where
  "exp_handler approx q s =
     (let num1 = parseFloat (q ''num1''); num2 = parseFloat (q ''num2'')
      in case handleErrors ''^'' num1 num2 s of (validate, s1) \<Rightarrow>
        if validate = Code 1 then
          (Response 400 (Message ''num1 and num2 must be numbers''), s1)
        else if validate = Code 3 then
          (Response 400 (Message ''Either numbers are too large or too small''), s1)
        else if validate = Code 4 then
          (Response 400 (Message ''If base is negative, exponent cannot be a fraction''), s1)
        else if validate = Code 5 then
          (Response 400 (Message ''If base is 0, exponent cannot be a negative fraction''), s1)
        else
          (let result = js_pow approx num1 num2
           in (Response 200 (Result result),
               logger_info (''Exponent: '' @ toString num1 @ '' ^ '' @ toString num2
                            @ '' = '' @ toString result) s1)))"

definition sqrt_handler :: "query \<Rightarrow> state \<Rightarrow> response \<times> state" where
  "sqrt_handler q s =
     (let num1 = parseFloat (q ''num1'')
      in case handleErrors ''sqrt'' num1 (Fin 0) s of (validate, s1) \<Rightarrow>
        if validate = Code 1 then
          (Response 400 (Message ''num1 must be a number''), s1)
        else if validate = Code 3 then
          (Response 400 (Message ''Numbers is too large or too small''), s1)
        else if validate = Code 6 then
          (Response 400 (Message ''Square root of negative numbers is not supported''), s1)
        else
          (let result = js_sqrt num1
           in (Response 200 (Result result),
               logger_info (''Square root: '' @ toString num1 @ '' = '' @ toString result) s1)))"

definition mod_handler :: "query \<Rightarrow> state \<Rightarrow> response \<times> state" where
  "mod_handler q s =
     (let num1 = parseFloat (q ''num1''); num2 = parseFloat (q ''num2'')
      in case handleErrors ''%'' num1 num2 s of (validate, s1) \<Rightarrow>
        if validate = Code 1 then
          (Response 400 (Message ''num1 and num2 must be numbers''), s1)
        else if validate = Code 2 then
          (Response 400 (Message ''Denominator cannot be 0 in modulo''), s1)
        else if validate = Code 3 then
          (Response 400 (Message ''Either numbers are too large or too small''), s1)
        else
          (let result = js_mod num1 num2
           in (Response 200 (Result result),
               logger_info (''Modulo: '' @ toString num1 @ '' % '' @ toString num2
                            @ '' = '' @ toString result) s1)))"

text \<open>
  The query \<^verbatim>\<open>?num1=a&num2=b\<close>, the state before the first request, and the
  operands that the range test of the validator rejects.
\<close>

definition qry :: "string \<Rightarrow> string \<Rightarrow> query" where
  "qry a b = [''num1'' \<mapsto> a, ''num2'' \<mapsto> b]"

definition s0 :: state where
  "s0 = \<lparr>logs = [], global_n2 = None\<rparr>"

definition exceeds_safe :: "jsnum \<Rightarrow> bool" where
  "exceeds_safe x = (js_gt x MAX_SAFE_INTEGER \<or> js_lt x MIN_SAFE_INTEGER)"

text \<open>
  Text that \<^verbatim>\<open>parseFloat\<close> reads a number from: after leading white space and one
  optional sign it begins with a digit, with a dot and a digit, or with
  \<^verbatim>\<open>Infinity\<close>.
\<close>

definition starts_number :: "string \<Rightarrow> bool" where
  "starts_number s =
     (let t = dropWhile is_ws s;
          u = (case t of [] \<Rightarrow> [] | c # r \<Rightarrow> if c = CHR ''-'' \<or> c = CHR ''+'' then r else t)
      in take 8 u = ''Infinity''
         \<or> (case u of
               [] \<Rightarrow> False
             | c # r \<Rightarrow>
                 is_digit c
                 \<or> (c = CHR ''.'' \<and> (case r of [] \<Rightarrow> False | d # r' \<Rightarrow> is_digit d))))"

text \<open>The Numbers with an integer value, as \<^verbatim>\<open>Number.isInteger\<close> tells them.\<close>

fun is_integer :: "jsnum \<Rightarrow> bool" where
  "is_integer (Fin q) = is_integral q"
| "is_integer NZero = True"
| "is_integer _ = False"

fun is_finite :: "jsnum \<Rightarrow> bool" where
  "is_finite (Fin q) = True"
| "is_finite NZero = True"
| "is_finite _ = False"

text \<open>
  Two instances of the parameter of \<open>js_pow\<close>, to close statements: \<open>approx_none\<close>
  gives no approximation at all (the instances that use it do not reach it), and
  \<open>approx_exact\<close> rounds the exact power where the exponent is an integer.
\<close>

definition approx_none :: "rat \<Rightarrow> rat \<Rightarrow> jsnum" where
  "approx_none b e = NaN"


text \<open>
  The distance between neighbouring doubles in the binade of a positive \<open>q\<close> (from
  the least exponent on, the one of the subnormal numbers).
\<close>

definition ulp :: "rat \<Rightarrow> rat" where
  "ulp q = power_int 2 (max (binade q) (- 1022) - 52)"

text \<open>
  \<open>nearest q x\<close>: the Number \<open>x\<close> is the exact value \<open>q\<close> rounded to a nearest
  double. It is finite, a multiple of the distance of the doubles around \<open>q\<close>, at
  most half of that distance away from \<open>q\<close>, and has the sign of \<open>q\<close>; it is a zero
  when \<open>q\<close> is zero.
\<close>

definition nearest :: "rat \<Rightarrow> jsnum \<Rightarrow> bool" where
  "nearest q x =
     (is_finite x
      \<and> (if q = 0 then value_of x = 0
          else \<bar>value_of x - q\<bar> \<le> ulp \<bar>q\<bar> / 2
               \<and> is_integral (value_of x / ulp \<bar>q\<bar>)
               \<and> is_neg x = (q < 0)))"

section \<open>Evaluation\<close>

text \<open>
  The same rounding with the bound \<open>2 ^ 1024\<close> written as an iterated fourth power,
  which evaluates in twenty multiplications.
\<close>

lemma fl_pos_code [code]:
  "fl_pos q = (let p = max (binade q) (- 1022) - 52;
                   v = of_int (round_even (q / power_int 2 p)) * power_int 2 p
               in if ((((2 ^ 4) ^ 4) ^ 4) ^ 4) ^ 4 \<le> v then PInf else Fin v)"
proof -
  have "((((2 ^ 4) ^ 4) ^ 4) ^ 4) ^ 4 = (2 :: rat) ^ 1024"
    by (simp only: power_mult [symmetric]) simp
  then show ?thesis by (simp only: fl_pos_def)
qed

section \<open>Queries and parsed operands\<close>

lemma qry_num1: "qry a b ''num1'' = Some a"
  by (simp add: qry_def)

lemma qry_num2: "qry a b ''num2'' = Some b"
  by (simp add: qry_def)

lemma parse_10: "parseFloat (Some ''10'') = Fin 10"
  unfolding parseFloat_def option.case by code_simp

lemma parse_5: "parseFloat (Some ''5'') = Fin 5"
  unfolding parseFloat_def option.case by code_simp

section \<open>The validator, rule by rule\<close>

lemma handleErrors_nan:
  "isNaN num1 \<or> isNaN num2 \<Longrightarrow>
   handleErrors operator num1 num2 s =
     (Code 1, logger_error ''Invalid input: Input parameters are not numbers'' s)"
  by (simp add: handleErrors_def)

lemma handleErrors_zero_division:
  "\<not> isNaN num1 \<Longrightarrow> \<not> isNaN num2 \<Longrightarrow>
   operator = ''/'' \<or> operator = ''%'' \<and> js_eq num2 (Fin 0) \<Longrightarrow>
   handleErrors operator num1 num2 s =
     (Code 2, logger_error ''Zero division: Division by 0 is not possible'' s)"
  by (simp add: handleErrors_def)

lemma handleErrors_code2_iff:
  "\<not> isNaN num1 \<Longrightarrow> \<not> isNaN num2 \<Longrightarrow>
   (fst (handleErrors operator num1 num2 s) = Code 2) =
     (operator = ''/'' \<or> operator = ''%'' \<and> js_eq num2 (Fin 0))"
  by (simp add: handleErrors_def Let_def)

lemma div_handler_numeric:
  "\<not> isNaN (parseFloat (q ''num1'')) \<Longrightarrow> \<not> isNaN (parseFloat (q ''num2'')) \<Longrightarrow>
   div_handler q s =
     (Response 400 (Message ''Denominator cannot be 0 in division''),
      logger_error ''Zero division: Division by 0 is not possible'' s)"
  by (simp add: div_handler_def Let_def handleErrors_zero_division)

section \<open>Text that parses to a number\<close>

lemma fl_pos_not_NaN: "fl_pos q \<noteq> NaN"
  by (simp add: fl_pos_def Let_def)

lemma js_neg_NaN: "(js_neg x = NaN) = (x = NaN)"
  by (cases x) simp_all

lemma fl_not_NaN: "fl q \<noteq> NaN"
  by (simp add: fl_def fl_pos_not_NaN js_neg_NaN)

lemma unsigned_literal_value:
  "unsigned_literal u = Some (v, rest) \<Longrightarrow> v \<noteq> NaN"
  by (auto simp: unsigned_literal_def Let_def fl_not_NaN split: if_splits prod.splits)

lemma unsigned_literal_none_iff:
  "(unsigned_literal u = None) =
     (take 8 u \<noteq> ''Infinity''
      \<and> (case u of
            [] \<Rightarrow> True
          | c # r \<Rightarrow>
              \<not> is_digit c
              \<and> (c = CHR ''.'' \<longrightarrow> (case r of [] \<Rightarrow> True | d # r' \<Rightarrow> \<not> is_digit d))))"
proof (cases u)
  case Nil
  then show ?thesis by (simp add: unsigned_literal_def)
next
  case (Cons c r)
  show ?thesis
  proof (cases "is_digit c")
    case True
    with Cons show ?thesis
      by (simp add: unsigned_literal_def Let_def split: prod.splits)
  next
    case False
    with Cons show ?thesis
      by (cases r) (auto simp: unsigned_literal_def Let_def split: prod.splits)
  qed
qed

lemma decimal_literal_value:
  "decimal_literal t = Some (v, rest) \<Longrightarrow> v \<noteq> NaN"
  by (cases t)
     (auto simp: decimal_literal_def js_neg_NaN split: if_splits dest: unsigned_literal_value)

lemma parseFloat_str_NaN_iff:
  "isNaN (parseFloat_str s) = (\<not> starts_number s)"
proof -
  define t where "t = dropWhile is_ws s"
  define u where "u = (case t of [] \<Rightarrow> [] | c # r \<Rightarrow> if c = CHR ''-'' \<or> c = CHR ''+'' then r else t)"
  have 1: "isNaN (parseFloat_str s) = (decimal_literal t = None)"
    by (cases "decimal_literal t")
       (auto simp: parseFloat_str_def isNaN_def t_def dest: decimal_literal_value)
  have 2: "(decimal_literal t = None) = (unsigned_literal u = None)"
    by (cases t) (auto simp: decimal_literal_def u_def unsigned_literal_def)
  have 3: "starts_number s = (unsigned_literal u \<noteq> None)"
    unfolding unsigned_literal_none_iff starts_number_def Let_def t_def [symmetric]
      u_def [symmetric]
    by (cases u) (auto split: list.splits)
  from 1 2 3 show ?thesis by auto
qed

section \<open>The operands of the examples\<close>

lemma parse_absent: "parseFloat None = NaN"
  unfolding parseFloat_def option.case by code_simp

lemma parse_abc: "parseFloat (Some ''abc'') = NaN"
  unfolding parseFloat_def option.case by code_simp

lemma parse_1: "parseFloat (Some ''1'') = Fin 1"
  unfolding parseFloat_def option.case by code_simp

section \<open>Handlers on operands that are no numbers\<close>

lemma add_handler_nan:
  "isNaN (parseFloat (q ''num1'')) \<or> isNaN (parseFloat (q ''num2'')) \<Longrightarrow>
   fst (add_handler q s) = Response 400 (Message ''num1 and num2 must be numbers'')"
  by (simp add: add_handler_def Let_def handleErrors_nan)

lemma sub_handler_nan:
  "isNaN (parseFloat (q ''num1'')) \<or> isNaN (parseFloat (q ''num2'')) \<Longrightarrow>
   fst (sub_handler q s) = Response 400 (Message ''num1 and num2 must be numbers'')"
  by (simp add: sub_handler_def Let_def handleErrors_nan)

lemma mul_handler_nan:
  "isNaN (parseFloat (q ''num1'')) \<or> isNaN (parseFloat (q ''num2'')) \<Longrightarrow>
   fst (mul_handler q s) = Response 400 (Message ''num1 and num2 must be numbers'')"
  by (simp add: mul_handler_def Let_def handleErrors_nan)

lemma div_handler_nan:
  "isNaN (parseFloat (q ''num1'')) \<or> isNaN (parseFloat (q ''num2'')) \<Longrightarrow>
   fst (div_handler q s) = Response 400 (Message ''num1 and num2 must be numbers'')"
  by (simp add: div_handler_def Let_def handleErrors_nan)

lemma exp_handler_nan:
  "isNaN (parseFloat (q ''num1'')) \<or> isNaN (parseFloat (q ''num2'')) \<Longrightarrow>
   fst (exp_handler approx q s) = Response 400 (Message ''num1 and num2 must be numbers'')"
  by (simp add: exp_handler_def Let_def handleErrors_nan)

lemma mod_handler_nan:
  "isNaN (parseFloat (q ''num1'')) \<or> isNaN (parseFloat (q ''num2'')) \<Longrightarrow>
   fst (mod_handler q s) = Response 400 (Message ''num1 and num2 must be numbers'')"
  by (simp add: mod_handler_def Let_def handleErrors_nan)

lemma sqrt_handler_nan:
  "isNaN (parseFloat (q ''num1'')) \<Longrightarrow>
   fst (sqrt_handler q s) = Response 400 (Message ''num1 must be a number'')"
  by (simp add: sqrt_handler_def Let_def handleErrors_nan)

section \<open>Rounding\<close>

lemma quotient_of_pos:
  assumes "0 < q" and "quotient_of q = (a, b)"
  shows "0 < a" and "0 < b" and "q = of_int a / of_int b"
proof -
  show b: "0 < b" using assms(2) by (rule quotient_of_denom_pos)
  show q: "q = of_int a / of_int b" using assms(2) by (rule quotient_of_div)
  from assms(1) q b show "0 < a" by (simp add: zero_less_divide_iff)
qed

lemma bitlen_bounds_rat:
  assumes "0 < a"
  shows "power_int 2 (bitlen a - 1) \<le> (of_int a :: rat)"
    and "(of_int a :: rat) < power_int 2 (bitlen a)"
proof -
  from assms have l: "1 \<le> bitlen a"
    by (simp add: bitlen_alt_def)
  from bitlen_bounds [OF assms]
  have lo: "2 ^ nat (bitlen a - 1) \<le> a" and hi: "a < 2 ^ nat (bitlen a)" by simp_all
  have "(of_int (2 ^ nat (bitlen a - 1)) :: rat) \<le> of_int a"
    using lo by (simp only: of_int_le_iff)
  then show "power_int 2 (bitlen a - 1) \<le> (of_int a :: rat)"
    using l by (simp add: power_int_nonneg_exp)
  have "(of_int a :: rat) < of_int (2 ^ nat (bitlen a))"
    using hi by (simp only: of_int_less_iff)
  then show "(of_int a :: rat) < power_int 2 (bitlen a)"
    using l by (simp add: power_int_nonneg_exp)
qed

lemma binade_bounds:
  assumes "0 < q"
  shows "power_int 2 (binade q) \<le> q" and "q < power_int 2 (binade q + 1)"
proof -
  obtain a b where ab: "quotient_of q = (a, b)" by (cases "quotient_of q")
  note p = quotient_of_pos [OF assms ab]
  define d where "d = bitlen a - bitlen b"
  have bq: "of_int b * q = (of_int a :: rat)"
    using p by simp
  have b0: "0 < (of_int b :: rat)" using p by simp
  have "power_int 2 (d - 1) * of_int b \<le> power_int 2 (d - 1) * (power_int 2 (bitlen b) :: rat)"
    using bitlen_bounds_rat(2) [OF p(2)] by (simp add: less_imp_le)
  also have "\<dots> = power_int 2 (bitlen a - 1)"
    by (simp add: d_def flip: power_int_add)
  also have "\<dots> \<le> of_int a" using bitlen_bounds_rat(1) [OF p(1)] .
  finally have "power_int 2 (d - 1) * of_int b \<le> of_int b * q"
    using bq by simp
  then have lo: "power_int 2 (d - 1) \<le> q"
    using b0 by (simp add: mult.commute)
  have "of_int b * q < (power_int 2 (bitlen a) :: rat)"
    using bq bitlen_bounds_rat(2) [OF p(1)] by simp
  also have "\<dots> = power_int 2 (d + 1) * power_int 2 (bitlen b - 1)"
    by (simp add: d_def flip: power_int_add)
  also have "\<dots> \<le> power_int 2 (d + 1) * of_int b"
    using bitlen_bounds_rat(1) [OF p(2)] by simp
  finally have hi: "q < power_int 2 (d + 1)"
    using b0 by (simp add: mult.commute)
  have e: "binade q = (if power_int 2 d \<le> q then d else d - 1)"
    by (simp add: binade_def ab d_def Let_def)
  show "power_int 2 (binade q) \<le> q"
    using e lo by (simp split: if_splits)
  show "q < power_int 2 (binade q + 1)"
    using e hi by (simp split: if_splits)
qed

lemma pow2_less_cancel:
  assumes "(power_int 2 m :: rat) < power_int 2 n"
  shows "m < n"
proof (rule ccontr)
  assume "\<not> m < n"
  then have "n \<le> m" by simp
  then have "(power_int 2 n :: rat) \<le> power_int 2 m"
    by (rule power_int_increasing) simp
  with assms show False by simp
qed

lemma binade_unique:
  assumes "power_int 2 e \<le> q" and "q < power_int 2 (e + 1)"
  shows "binade q = e"
proof -
  have "0 < (power_int 2 e :: rat)" by simp
  then have q: "0 < q" using assms(1) by (rule less_le_trans)
  note b = binade_bounds [OF q]
  have "(power_int 2 e :: rat) < power_int 2 (binade q + 1)"
    using assms(1) b(2) by (rule le_less_trans)
  then have 1: "e < binade q + 1"
    by (rule pow2_less_cancel)
  have "(power_int 2 (binade q) :: rat) < power_int 2 (e + 1)"
    using b(1) assms(2) by (rule le_less_trans)
  then have 2: "binade q < e + 1"
    by (rule pow2_less_cancel)
  from 1 2 show ?thesis by simp
qed

lemma round_even_of_int: "round_even (of_int n) = n"
  by (simp add: round_even_def)

lemma fl_pos_of_int:
  assumes "0 < x" and "x < 2 ^ 53"
  shows "fl_pos (of_int x) = Fin (of_int x)"
proof -
  define e where "e = binade (of_int x)"
  have x0: "0 < (of_int x :: rat)" using assms(1) by simp
  note b = binade_bounds [OF x0, folded e_def]
  have "(1 :: rat) \<le> of_int x" using assms(1) by simp
  with b(2) have "(power_int 2 0 :: rat) < power_int 2 (e + 1)" by simp
  then have e0: "0 \<le> e" using pow2_less_cancel [of 0 "e + 1"] by simp
  have "(of_int x :: rat) < of_int (2 ^ 53)"
    using assms(2) by (simp only: of_int_less_iff)
  then have "(of_int x :: rat) < power_int 2 53" by simp
  with b(1) have "(power_int 2 e :: rat) < power_int 2 53" by (rule le_less_trans)
  then have e52: "e \<le> 52" using pow2_less_cancel [of e 53] by simp
  define j where "j = nat (52 - e)"
  have p: "max e (- 1022) - 52 = - int j"
    using e0 e52 by (simp add: j_def)
  have m: "of_int x / power_int 2 (- int j) = (of_int (x * 2 ^ j) :: rat)"
    by (simp add: power_int_minus field_simps)
  have v: "(of_int (x * 2 ^ j) :: rat) * power_int 2 (- int j) = of_int x"
    by (simp add: power_int_minus field_simps)
  have "(of_int x :: rat) < 2 ^ 1024"
  proof -
    have "(of_int x :: rat) < power_int 2 53" by fact
    also have "\<dots> \<le> power_int 2 1024" by (rule power_int_increasing) simp_all
    finally show ?thesis by simp
  qed
  then have nov: "\<not> 2 ^ 1024 \<le> (of_int x :: rat)" by simp
  show ?thesis
    unfolding fl_pos_def Let_def e_def [symmetric] p m round_even_of_int v
    using nov by simp
qed

lemma round_even_bounds: "\<lfloor>m\<rfloor> \<le> round_even m \<and> round_even m \<le> \<lfloor>m\<rfloor> + 1"
  by (simp add: round_even_def Let_def)

lemma fl_pos_overflow:
  assumes "2 ^ 1024 \<le> q"
  shows "fl_pos q = PInf"
proof -
  define e where "e = binade q"
  have "(0 :: rat) < 2 ^ 1024" by simp
  then have q0: "0 < q" using assms by (rule less_le_trans)
  note b = binade_bounds [OF q0, folded e_def]
  have "(power_int 2 1024 :: rat) \<le> q" using assms by simp
  then have "(power_int 2 1024 :: rat) < power_int 2 (e + 1)"
    using b(2) by (rule le_less_trans)
  then have e: "1024 \<le> e" using pow2_less_cancel [of 1024 "e + 1"] by simp
  then have p: "max e (- 1022) - 52 = e - 52" by simp
  define P :: rat where "P = power_int 2 (e - 52)"
  define K :: rat where "K = power_int 2 52"
  define r where "r = q / P"
  have P0: "0 < P" by (simp add: P_def)
  have KP: "K * P = power_int 2 e"
    using power_int_add [of "2 :: rat" 52 "e - 52"] by (simp add: K_def P_def)
  have Kint: "K = of_int (2 ^ 52)" by (simp add: K_def)
  have "K * P \<le> q" using b(1) KP by simp
  then have "K \<le> r" using P0 by (simp add: r_def pos_le_divide_eq)
  then have "2 ^ 52 \<le> \<lfloor>r\<rfloor>" unfolding Kint by (simp only: le_floor_iff)
  with round_even_bounds [of r] have "2 ^ 52 \<le> round_even r" by linarith
  then have "K \<le> of_int (round_even r)"
    unfolding Kint by (simp only: of_int_le_iff)
  then have "K * P \<le> of_int (round_even r) * P"
    using P0 by (simp add: mult_right_mono)
  moreover have "(power_int 2 1024 :: rat) \<le> power_int 2 e"
    using e by (rule power_int_increasing) simp
  ultimately have "(2 :: rat) ^ 1024 \<le> of_int (round_even r) * P"
    unfolding KP by simp
  then show ?thesis
    unfolding fl_pos_def Let_def e_def [symmetric] p P_def [symmetric] r_def [symmetric]
    by simp
qed

lemma parse_1e309: "parseFloat (Some ''1e309'') = PInf"
proof -
  have "parseFloat (Some ''1e309'') = fl (10 ^ 309)"
    by (simp add: parseFloat_def parseFloat_str_def decimal_literal_def unsigned_literal_def
        exponent_part_def signed_integer_def digits_val_def digit_val_def is_digit_def
        is_ws_def Let_def)
  also have "\<dots> = fl_pos (10 ^ 309)" by (simp add: fl_def)
  also have "\<dots> = PInf" by (rule fl_pos_overflow) simp
  finally show ?thesis .
qed

section \<open>Rounding is to a nearest double\<close>

lemma round_even_error: "\<bar>of_int (round_even m) - m\<bar> \<le> 1 / 2"
proof -
  have "of_int \<lfloor>m\<rfloor> \<le> m" "m < of_int \<lfloor>m\<rfloor> + 1" by linarith+
  then show ?thesis
    unfolding round_even_def Let_def by (simp add: abs_if) linarith
qed

lemma fl_pos_value:
  assumes "0 < q" and "q < 2 ^ 1023"
  shows "fl_pos q = Fin (of_int (round_even (q / ulp q)) * ulp q)"
proof -
  define e where "e = binade q"
  note b = binade_bounds [OF assms(1), folded e_def]
  have "(power_int 2 e :: rat) < power_int 2 1023"
    using b(1) assms(2) by simp
  then have e: "e \<le> 1022" using pow2_less_cancel [of e 1023] by simp
  define p where "p = max e (- 1022) - 52"
  define P :: rat where "P = power_int 2 p"
  define K :: rat where "K = power_int 2 53"
  define r where "r = q / P"
  have P0: "0 < P" by (simp add: P_def)
  have KP: "K * P = power_int 2 (p + 53)"
    by (simp add: K_def P_def power_int_add add.commute)
  have Kint: "K = of_int (2 ^ 53)" by (simp add: K_def)
  have p970: "p + 53 \<le> 1023" using e by (simp add: p_def)
  have ep: "e + 1 \<le> p + 53" by (simp add: p_def)
  have "(power_int 2 (e + 1) :: rat) \<le> power_int 2 (p + 53)"
    using ep by (rule power_int_increasing) simp
  with b(2) have "q < K * P" unfolding KP by (rule less_le_trans)
  then have "r < K" using P0 by (simp add: r_def pos_divide_less_eq)
  then have "\<lfloor>r\<rfloor> < 2 ^ 53" unfolding Kint by (simp only: floor_less_iff)
  with round_even_bounds [of r] have "round_even r \<le> 2 ^ 53" by linarith
  then have "of_int (round_even r) \<le> K"
    unfolding Kint by (simp only: of_int_le_iff)
  then have "of_int (round_even r) * P \<le> K * P"
    using P0 by (simp add: mult_right_mono)
  also have "K * P \<le> power_int 2 1023"
    unfolding KP using p970 by (rule power_int_increasing) simp
  also have "\<dots> < (2 :: rat) ^ 1024" by simp
  finally have "\<not> (2 :: rat) ^ 1024 \<le> of_int (round_even r) * P" by simp
  then show ?thesis
    unfolding fl_pos_def ulp_def Let_def e_def [symmetric] p_def [symmetric] P_def [symmetric]
      r_def [symmetric]
    by simp
qed

lemma fl_pos_finite:
  assumes "0 < q" and "q < 2 ^ 1023"
  shows "\<exists>v. fl_pos q = Fin v"
  using fl_pos_value [OF assms] by blast

lemma ulp_pos: "0 < ulp q"
  by (simp add: ulp_def)

lemma fl_pos_accuracy:
  assumes "0 < q" and "q < 2 ^ 1023"
  shows "\<exists>v. fl_pos q = Fin v \<and> 0 \<le> v \<and> \<bar>v - q\<bar> \<le> ulp q / 2 \<and> is_integral (v / ulp q)"
proof -
  define r where "r = q / ulp q"
  define v where "v = of_int (round_even r) * ulp q"
  have fl: "fl_pos q = Fin v"
    unfolding v_def r_def using assms by (rule fl_pos_value)
  have "0 \<le> r" using assms(1) ulp_pos [of q] by (simp add: r_def)
  then have "0 \<le> \<lfloor>r\<rfloor>" by simp
  with round_even_bounds [of r] have "0 \<le> round_even r" by linarith
  then have v0: "0 \<le> v" using ulp_pos [of q] by (simp add: v_def)
  have q: "q = r * ulp q" using ulp_pos [of q] by (simp add: r_def)
  have "v - q = (of_int (round_even r) - r) * ulp q"
    by (subst q) (simp add: v_def algebra_simps)
  then have "\<bar>v - q\<bar> = \<bar>of_int (round_even r) - r\<bar> * ulp q"
    using ulp_pos [of q] by (simp add: abs_mult)
  also have "\<dots> \<le> 1 / 2 * ulp q"
    using round_even_error [of r] ulp_pos [of q] by (intro mult_right_mono) simp_all
  finally have err: "\<bar>v - q\<bar> \<le> ulp q / 2" by simp
  have "v / ulp q = of_int (round_even r)"
    using ulp_pos [of q] by (simp add: v_def)
  then have grid: "is_integral (v / ulp q)" by (simp add: is_integral_def)
  from fl v0 err grid show ?thesis by blast
qed

lemma is_integral_minus: "is_integral (- q) = is_integral q"
proof -
  have "is_integral q \<Longrightarrow> is_integral (- q)" for q :: rat
  proof -
    assume "is_integral q"
    then have "q = of_int \<lfloor>q\<rfloor>" unfolding is_integral_def by (rule sym)
    then have "- q = of_int (- \<lfloor>q\<rfloor>)" by simp
    then show "is_integral (- q)" unfolding is_integral_def by (metis floor_of_int)
  qed
  from this [of q] this [of "- q"] show ?thesis by auto
qed

lemma nearest_fl:
  assumes "\<bar>q\<bar> < 2 ^ 1023"
  shows "nearest q (fl q)"
proof -
  consider "q = 0" | "0 < q" | "q < 0" by linarith
  then show ?thesis
  proof cases
    case 1
    then show ?thesis by (simp add: nearest_def fl_def)
  next
    case 2
    with assms have "q < 2 ^ 1023" by simp
    from fl_pos_accuracy [OF 2 this] obtain v where
      "fl_pos q = Fin v" "0 \<le> v" "\<bar>v - q\<bar> \<le> ulp q / 2" "is_integral (v / ulp q)"
      by blast
    with 2 show ?thesis by (simp add: nearest_def fl_def)
  next
    case 3
    with assms have "0 < - q" "- q < 2 ^ 1023" by simp_all
    from fl_pos_accuracy [OF this] obtain v where
      v: "fl_pos (- q) = Fin v" "0 \<le> v" "\<bar>v - (- q)\<bar> \<le> ulp (- q) / 2"
        "is_integral (v / ulp (- q))"
      by blast
    have a: "\<bar>q\<bar> = - q" using 3 by simp
    have e: "\<bar>- v - q\<bar> = \<bar>v - (- q)\<bar>" by simp
    have g: "is_integral (- v / ulp (- q))"
      using v(4) is_integral_minus [of "v / ulp (- q)"] by simp
    show ?thesis
    proof (cases "v = 0")
      case True
      with 3 v a show ?thesis by (simp add: nearest_def fl_def)
    next
      case False
      with 3 v a e g show ?thesis by (simp add: nearest_def fl_def)
    qed
  qed
qed

section \<open>Digits of integers\<close>

lemma declen_bounds:
  "0 < x \<Longrightarrow> 1 \<le> declen x \<and> 10 ^ nat (declen x - 1) \<le> x \<and> x < 10 ^ nat (declen x)"
proof (induction x rule: declen.induct)
  case (1 x)
  show ?case
  proof (cases "0 < x div 10")
    case False
    with "1.prems" have small: "x < 10" by simp
    from False have "declen (x div 10) = 0"
      by (simp add: declen.simps [of "x div 10"])
    with "1.prems" have "declen x = 1"
      by (simp add: declen.simps [of x])
    with "1.prems" small show ?thesis by simp
  next
    case True
    define l where "l = declen (x div 10)"
    from "1.IH" [OF "1.prems" True]
    have ih: "1 \<le> l" "10 ^ nat (l - 1) \<le> x div 10" "x div 10 < 10 ^ nat l"
      by (simp_all add: l_def)
    have dx: "declen x = l + 1"
      using "1.prems" by (simp add: declen.simps [of x] l_def)
    have n: "nat (l + 1) = Suc (nat l)" "nat l = Suc (nat (l - 1))"
      using ih(1) by simp_all
    have "10 ^ nat l = 10 * 10 ^ nat (l - 1)"
      by (subst n(2)) simp
    also have "\<dots> \<le> 10 * (x div 10)" using ih(2) by simp
    also have "\<dots> \<le> x" by simp
    finally have lo: "10 ^ nat l \<le> x" .
    have "x < 10 * (x div 10 + 1)" by simp
    also have "\<dots> \<le> 10 * 10 ^ nat l" using ih(3) by simp
    finally have hi: "x < 10 ^ nat (l + 1)" by (simp add: n(1))
    from ih(1) lo hi show ?thesis by (simp add: dx)
  qed
qed

lemma dec_exp_of_int:
  assumes "0 < x"
  shows "dec_exp (of_int x) = declen x"
proof -
  note b = declen_bounds [OF assms]
  have one: "declen 1 = 1"
    by (simp add: declen.simps [of 1] declen.simps [of 0])
  have "(of_int (10 ^ nat (declen x - 1)) :: rat) \<le> of_int x"
    using b by (simp only: of_int_le_iff)
  then have "(power_int 10 (declen x - 1) :: rat) \<le> of_int x"
    using b by (simp add: power_int_nonneg_exp)
  then show ?thesis
    by (simp add: dec_exp_def one Let_def)
qed

lemma is_digit_digit_char:
  assumes "0 \<le> d" and "d < 10"
  shows "is_digit (digit_char d)"
proof -
  have "(of_char (char_of (48 + d)) :: int) = 48 + d"
    using assms by simp
  then have "int (of_char (char_of (48 + d))) = 48 + d"
    by (simp add: of_char_def)
  then show ?thesis
    using assms by (simp add: is_digit_def digit_char_def)
qed

lemma dec_str_digits:
  "0 \<le> n \<Longrightarrow> \<forall>c\<in>set (dec_str n). is_digit c"
proof (induction n rule: dec_str.induct)
  case (1 n)
  show ?case
  proof (cases "n < 10")
    case True
    with "1.prems" show ?thesis
      by (simp add: dec_str.simps [of n] is_digit_digit_char)
  next
    case False
    with "1.prems" have "0 \<le> n div 10" by simp
    with "1.IH" False have "\<forall>c\<in>set (dec_str (n div 10)). is_digit c" by simp
    moreover have "is_digit (digit_char (n mod 10))"
      by (rule is_digit_digit_char) simp_all
    ultimately show ?thesis
      using False by (simp add: dec_str.simps [of n])
  qed
qed

lemma dot_no_digit: "\<not> is_digit CHR ''.''"
  by (simp add: is_digit_def)

section \<open>The string of an integer has no dot\<close>

lemma try_digits_result:
  assumes "0 < v" and "try_digits v k = Some (n, s)"
  shows "dec_exp v \<le> n \<and> n \<le> dec_exp v + 1 \<and> 0 \<le> s"
proof -
  define u :: rat where "u = power_int 10 (dec_exp v - int k)"
  have u0: "0 < u" by (simp add: u_def)
  with assms(1) have "0 \<le> v / u" by simp
  then have lo: "0 \<le> \<lfloor>v / u\<rfloor>" by simp
  have p: "(0 :: int) \<le> 10 ^ (k - 1)" by simp
  from assms(2) lo p show ?thesis
    unfolding try_digits_def Let_def u_def [symmetric]
    by (auto split: if_splits)
qed

lemma try_digits_of_int:
  assumes "0 < x" and "x < 2 ^ 53"
  shows "try_digits (of_int x) (nat (declen x)) = Some (declen x, x)"
proof -
  have l: "1 \<le> declen x" using declen_bounds [OF assms(1)] by simp
  have n: "dec_exp (of_int x) = declen x" using assms(1) by (rule dec_exp_of_int)
  have u: "power_int 10 (declen x - int (nat (declen x))) = (1 :: rat)"
    using l by simp
  show ?thesis
    unfolding try_digits_def Let_def n u
    using fl_pos_of_int [OF assms] by simp
qed

lemma shortest_first:
  "sorted ks \<Longrightarrow> k0 \<in> set ks \<Longrightarrow> try_digits v k0 = Some r \<Longrightarrow>
   \<exists>k n s. shortest v ks = Some (k, n, s) \<and> k \<le> k0 \<and> try_digits v k = Some (n, s)"
proof (induction ks)
  case Nil
  then show ?case by simp
next
  case (Cons a ks)
  show ?case
  proof (cases "try_digits v a")
    case (Some t)
    obtain n s where t: "t = (n, s)" by (cases t)
    from Cons.prems(1,2) have "a \<le> k0" by auto
    with Some t show ?thesis by simp
  next
    case None
    with Cons.prems(3) have "a \<noteq> k0" by auto
    with Cons.prems(2) have "k0 \<in> set ks" by simp
    moreover from Cons.prems(1) have "sorted ks" by simp
    ultimately show ?thesis
      using Cons.IH Cons.prems(3) None by simp
  qed
qed

lemma format_digits_no_dot:
  assumes "int k \<le> n" and "n \<le> 21" and "0 \<le> s"
  shows "CHR ''.'' \<notin> set (format_digits k n s)"
proof -
  have "\<forall>c\<in>set (dec_str s). is_digit c"
    using assms(3) by (rule dec_str_digits)
  then have "CHR ''.'' \<notin> set (dec_str s)"
    using dot_no_digit by blast
  then show ?thesis
    using assms(1,2) by (simp add: format_digits_def Let_def)
qed

lemma pos_to_string_of_int:
  assumes "0 < x" and "x < 2 ^ 53"
  shows "CHR ''.'' \<notin> set (pos_to_string (of_int x))"
proof -
  note b = declen_bounds [OF assms(1)]
  have "(10 :: int) ^ nat (declen x - 1) < 10 ^ 16"
  proof -
    have "(10 :: int) ^ nat (declen x - 1) \<le> x" using b by simp
    also have "x < 2 ^ 53" by fact
    also have "(2 :: int) ^ 53 < 10 ^ 16" by simp
    finally show ?thesis .
  qed
  then have "nat (declen x - 1) < 16"
    by (rule power_less_imp_less_exp [rotated]) simp
  with b have l16: "declen x \<le> 16" by simp
  have l1: "1 \<le> declen x" using b by simp
  have mem: "nat (declen x) \<in> set [1..<18]"
    using l1 l16 by auto
  from shortest_first [OF _ mem try_digits_of_int [OF assms]]
  obtain k n s where sh: "shortest (of_int x) [1..<18] = Some (k, n, s)"
    and k: "k \<le> nat (declen x)"
    and t: "try_digits (of_int x) k = Some (n, s)"
    by auto
  have x0: "0 < (of_int x :: rat)" using assms(1) by simp
  from try_digits_result [OF x0 t]
  have r: "declen x \<le> n" "n \<le> declen x + 1" "0 \<le> s"
    by (simp_all add: dec_exp_of_int [OF assms(1)])
  have "int k \<le> n" using k r(1) l1 by linarith
  moreover have "n \<le> 21" using r(2) l16 by simp
  ultimately have "CHR ''.'' \<notin> set (format_digits k n s)"
    using r(3) by (rule format_digits_no_dot)
  then show ?thesis unfolding pos_to_string_def sh by simp
qed

lemma toString_integral_no_dot:
  assumes "is_integral q" and "\<bar>q\<bar> < 2 ^ 53"
  shows "CHR ''.'' \<notin> set (toString (Fin q))"
proof -
  define x where "x = \<lfloor>q\<rfloor>"
  have q: "q = of_int x"
    using assms(1) unfolding is_integral_def x_def by (rule sym)
  have "\<bar>(of_int x :: rat)\<bar> < of_int (2 ^ 53)" using assms(2) q by simp
  then have ax: "\<bar>x\<bar> < 2 ^ 53"
    by (simp only: of_int_less_iff flip: of_int_abs)
  consider "x = 0" | "0 < x" | "x < 0" by linarith
  then show ?thesis
  proof cases
    case 1
    then show ?thesis by (simp add: q)
  next
    case 2
    with ax have "x < 2 ^ 53" by simp
    with 2 have "CHR ''.'' \<notin> set (pos_to_string (of_int x))"
      by (rule pos_to_string_of_int)
    with 2 show ?thesis by (simp add: q)
  next
    case 3
    with ax have "0 < - x" "- x < 2 ^ 53" by simp_all
    then have "CHR ''.'' \<notin> set (pos_to_string (of_int (- x)))"
      by (rule pos_to_string_of_int)
    with 3 show ?thesis by (simp add: q)
  qed
qed

lemma match_here_dot: "match_here s \<Longrightarrow> CHR ''.'' \<in> set s"
proof -
  assume "match_here s"
  then have "take 1 (dropWhile is_digit s) = ''.''"
    by (simp add: match_here_def Let_def)
  then have "CHR ''.'' \<in> set (take 1 (dropWhile is_digit s))" by simp
  then have "CHR ''.'' \<in> set (dropWhile is_digit s)" by (rule in_set_takeD)
  then show ?thesis by (rule set_dropWhileD)
qed

lemma regex_test_dot: "regex_test s \<Longrightarrow> CHR ''.'' \<in> set s"
  by (induction s) (auto dest: match_here_dot)

lemma regex_test_integral:
  assumes "is_integral q" and "\<bar>q\<bar> < 2 ^ 53"
  shows "\<not> regex_test (toString (Fin q))"
  using toString_integral_no_dot [OF assms] regex_test_dot by blast

section \<open>The validator, remaining rules\<close>

lemma handleErrors_range:
  assumes "\<not> isNaN num1" and "\<not> isNaN num2"
    and "operator \<noteq> ''/''" and "operator \<noteq> ''%'' \<or> \<not> js_eq num2 (Fin 0)"
    and "exceeds_safe num1 \<or> exceeds_safe num2"
  shows "handleErrors operator num1 num2 s =
     (Code 3, logger_error
        ''Range exceeded: Input parameters have exceeded min/max range limits'' s)"
  using assms unfolding handleErrors_def exceeds_safe_def by auto


lemma handleErrors_exp_undefined:
  assumes "\<not> isNaN num1" and "\<not> isNaN num2"
    and "\<not> exceeds_safe num1" and "\<not> exceeds_safe num2"
    and "\<not> regex_test (toString num2)"
  shows "handleErrors ''^'' num1 num2 s = (Undefined, s\<lparr>global_n2 := Some (toString num2)\<rparr>)"
  using assms unfolding handleErrors_def exceeds_safe_def Let_def by simp

lemma handleErrors_sqrt_negative:
  assumes "\<not> isNaN num1" and "\<not> isNaN num2"
    and "\<not> exceeds_safe num1" and "\<not> exceeds_safe num2" and "js_lt num1 (Fin 0)"
  shows "handleErrors ''sqrt'' num1 num2 s =
     (Code 6, logger_error ''Negative square root: Input number is negative'' s)"
  using assms unfolding handleErrors_def exceeds_safe_def Let_def by simp

lemma handleErrors_sqrt_undefined:
  assumes "\<not> isNaN num1" and "\<not> isNaN num2"
    and "\<not> exceeds_safe num1" and "\<not> exceeds_safe num2" and "\<not> js_lt num1 (Fin 0)"
  shows "handleErrors ''sqrt'' num1 num2 s = (Undefined, s)"
  using assms unfolding handleErrors_def exceeds_safe_def Let_def by simp

lemma handleErrors_no_error:
  assumes "\<not> isNaN num1" and "\<not> isNaN num2"
    and "\<not> exceeds_safe num1" and "\<not> exceeds_safe num2"
    and "operator \<noteq> ''/''" and "operator \<noteq> ''%'' \<or> \<not> js_eq num2 (Fin 0)"
    and "operator \<noteq> ''^''" and "operator \<noteq> ''sqrt''"
  shows "handleErrors operator num1 num2 s = (Code 0, s)"
  using assms unfolding handleErrors_def exceeds_safe_def Let_def by auto

lemma handleErrors_ignores_global:
  "fst (handleErrors operator num1 num2 (s\<lparr>global_n2 := g\<rparr>)) =
     fst (handleErrors operator num1 num2 s)
   \<and> logs (snd (handleErrors operator num1 num2 (s\<lparr>global_n2 := g\<rparr>))) =
       logs (snd (handleErrors operator num1 num2 s))"
  by (simp add: handleErrors_def Let_def logger_error_def)

lemma zero_in_range: "\<not> isNaN (Fin 0) \<and> \<not> exceeds_safe (Fin 0)"
  by (simp add: isNaN_def exceeds_safe_def js_gt_def MAX_SAFE_INTEGER_def MIN_SAFE_INTEGER_def)

lemma safe_cases:
  assumes "\<not> isNaN x" and "\<not> exceeds_safe x"
  shows "x = NZero \<or> (\<exists>q. x = Fin q \<and> \<bar>q\<bar> \<le> 2 ^ 53 - 1)"
  using assms
  by (cases x)
     (auto simp: isNaN_def exceeds_safe_def js_gt_def MAX_SAFE_INTEGER_def MIN_SAFE_INTEGER_def)

lemma regex_test_integer:
  assumes "is_integer x" and "\<not> exceeds_safe x"
  shows "\<not> regex_test (toString x)"
proof (cases x)
  case (Fin q)
  with assms(1) have i: "is_integral q" by simp
  from assms(2) Fin have "\<bar>q\<bar> \<le> 2 ^ 53 - 1"
    using safe_cases [of x] by (simp add: isNaN_def)
  then have "\<bar>q\<bar> < 2 ^ 53" by simp
  with i have "\<not> regex_test (toString (Fin q))" by (rule regex_test_integral)
  with Fin show ?thesis by simp
next
  case NZero
  have "CHR ''.'' \<notin> set ''0''" by simp
  then have "\<not> regex_test ''0''" using regex_test_dot by blast
  with NZero show ?thesis by simp
qed (use assms(1) in simp_all)

section \<open>Handlers on numbers\<close>

lemma add_handler_ok:
  assumes "\<not> isNaN (parseFloat (q ''num1''))" and "\<not> isNaN (parseFloat (q ''num2''))"
    and "\<not> exceeds_safe (parseFloat (q ''num1''))" and "\<not> exceeds_safe (parseFloat (q ''num2''))"
  shows "fst (add_handler q s) =
     Response 200 (Result (js_add (parseFloat (q ''num1'')) (parseFloat (q ''num2''))))"
  using assms by (simp add: add_handler_def Let_def handleErrors_no_error)

lemma sub_handler_ok:
  assumes "\<not> isNaN (parseFloat (q ''num1''))" and "\<not> isNaN (parseFloat (q ''num2''))"
    and "\<not> exceeds_safe (parseFloat (q ''num1''))" and "\<not> exceeds_safe (parseFloat (q ''num2''))"
  shows "fst (sub_handler q s) =
     Response 200 (Result (js_sub (parseFloat (q ''num1'')) (parseFloat (q ''num2''))))"
  using assms by (simp add: sub_handler_def Let_def handleErrors_no_error)

lemma mul_handler_ok:
  assumes "\<not> isNaN (parseFloat (q ''num1''))" and "\<not> isNaN (parseFloat (q ''num2''))"
    and "\<not> exceeds_safe (parseFloat (q ''num1''))" and "\<not> exceeds_safe (parseFloat (q ''num2''))"
  shows "fst (mul_handler q s) =
     Response 200 (Result (js_mul (parseFloat (q ''num1'')) (parseFloat (q ''num2''))))"
  using assms by (simp add: mul_handler_def Let_def handleErrors_no_error)

lemma mod_handler_ok:
  assumes "\<not> isNaN (parseFloat (q ''num1''))" and "\<not> isNaN (parseFloat (q ''num2''))"
    and "\<not> exceeds_safe (parseFloat (q ''num1''))" and "\<not> exceeds_safe (parseFloat (q ''num2''))"
    and "\<not> js_eq (parseFloat (q ''num2'')) (Fin 0)"
  shows "fst (mod_handler q s) =
     Response 200 (Result (js_mod (parseFloat (q ''num1'')) (parseFloat (q ''num2''))))"
  using assms by (simp add: mod_handler_def Let_def handleErrors_no_error)

lemma mod_handler_zero:
  assumes "\<not> isNaN (parseFloat (q ''num1''))" and "js_eq (parseFloat (q ''num2'')) (Fin 0)"
  shows "fst (mod_handler q s) = Response 400 (Message ''Denominator cannot be 0 in modulo'')"
proof -
  have "\<not> isNaN (parseFloat (q ''num2''))"
    using assms(2) by (auto simp: isNaN_def)
  with assms show ?thesis
    by (simp add: mod_handler_def Let_def handleErrors_zero_division)
qed

lemma sqrt_handler_negative:
  assumes "\<not> isNaN (parseFloat (q ''num1''))" and "\<not> exceeds_safe (parseFloat (q ''num1''))"
    and "js_lt (parseFloat (q ''num1'')) (Fin 0)"
  shows "fst (sqrt_handler q s) =
     Response 400 (Message ''Square root of negative numbers is not supported'')"
  using assms zero_in_range by (simp add: sqrt_handler_def Let_def handleErrors_sqrt_negative)

lemma sqrt_handler_ok:
  assumes "\<not> isNaN (parseFloat (q ''num1''))" and "\<not> exceeds_safe (parseFloat (q ''num1''))"
    and "\<not> js_lt (parseFloat (q ''num1'')) (Fin 0)"
  shows "fst (sqrt_handler q s) = Response 200 (Result (js_sqrt (parseFloat (q ''num1''))))"
  using assms zero_in_range by (simp add: sqrt_handler_def Let_def handleErrors_sqrt_undefined)



section \<open>Handlers on operands out of range\<close>

lemma add_handler_range:
  assumes "\<not> isNaN (parseFloat (q ''num1''))" and "\<not> isNaN (parseFloat (q ''num2''))"
    and "exceeds_safe (parseFloat (q ''num1'')) \<or> exceeds_safe (parseFloat (q ''num2''))"
  shows "fst (add_handler q s) =
     Response 400 (Message ''Either numbers are too large or too small'')"
  using assms by (simp add: add_handler_def Let_def handleErrors_range)

lemma sub_handler_range:
  assumes "\<not> isNaN (parseFloat (q ''num1''))" and "\<not> isNaN (parseFloat (q ''num2''))"
    and "exceeds_safe (parseFloat (q ''num1'')) \<or> exceeds_safe (parseFloat (q ''num2''))"
  shows "fst (sub_handler q s) =
     Response 400 (Message ''Either numbers are too large or too small'')"
  using assms by (simp add: sub_handler_def Let_def handleErrors_range)

lemma mul_handler_range:
  assumes "\<not> isNaN (parseFloat (q ''num1''))" and "\<not> isNaN (parseFloat (q ''num2''))"
    and "exceeds_safe (parseFloat (q ''num1'')) \<or> exceeds_safe (parseFloat (q ''num2''))"
  shows "fst (mul_handler q s) =
     Response 400 (Message ''Either numbers are too large or too small'')"
  using assms by (simp add: mul_handler_def Let_def handleErrors_range)

lemma exp_handler_range:
  assumes "\<not> isNaN (parseFloat (q ''num1''))" and "\<not> isNaN (parseFloat (q ''num2''))"
    and "exceeds_safe (parseFloat (q ''num1'')) \<or> exceeds_safe (parseFloat (q ''num2''))"
  shows "fst (exp_handler approx q s) =
     Response 400 (Message ''Either numbers are too large or too small'')"
  using assms by (simp add: exp_handler_def Let_def handleErrors_range)

lemma mod_handler_range:
  assumes "\<not> isNaN (parseFloat (q ''num1''))" and "\<not> isNaN (parseFloat (q ''num2''))"
    and "exceeds_safe (parseFloat (q ''num1'')) \<or> exceeds_safe (parseFloat (q ''num2''))"
    and "\<not> js_eq (parseFloat (q ''num2'')) (Fin 0)"
  shows "fst (mod_handler q s) =
     Response 400 (Message ''Either numbers are too large or too small'')"
  using assms by (simp add: mod_handler_def Let_def handleErrors_range)

lemma sqrt_handler_range:
  assumes "\<not> isNaN (parseFloat (q ''num1''))" and "exceeds_safe (parseFloat (q ''num1''))"
  shows "fst (sqrt_handler q s) = Response 400 (Message ''Numbers is too large or too small'')"
  using assms zero_in_range by (simp add: sqrt_handler_def Let_def handleErrors_range)

section \<open>Results of operands in range are finite\<close>

lemma is_finite_js_neg: "is_finite (js_neg x) = is_finite x"
  by (cases x) simp_all

lemma fl_finite:
  assumes "\<bar>q\<bar> < 2 ^ 1023"
  shows "is_finite (fl q)"
proof -
  consider "q = 0" | "0 < q" | "q < 0" by linarith
  then show ?thesis
  proof cases
    case 1
    then show ?thesis by (simp add: fl_def)
  next
    case 2
    with assms have "q < 2 ^ 1023" by simp
    with 2 obtain v where "fl_pos q = Fin v" using fl_pos_finite by blast
    with 2 show ?thesis by (simp add: fl_def)
  next
    case 3
    with assms have "0 < - q" "- q < 2 ^ 1023" by simp_all
    then obtain v where "fl_pos (- q) = Fin v" using fl_pos_finite by blast
    with 3 show ?thesis by (simp add: fl_def)
  qed
qed

lemma safe_value:
  assumes "\<not> isNaN x" and "\<not> exceeds_safe x"
  shows "\<not> is_inf x \<and> \<bar>value_of x\<bar> < 2 ^ 53"
  using safe_cases [OF assms] by auto

lemma safe_js_neg:
  assumes "\<not> isNaN x" and "\<not> exceeds_safe x"
  shows "\<not> isNaN (js_neg x) \<and> \<not> exceeds_safe (js_neg x)"
  using safe_cases [OF assms]
  by (auto simp: isNaN_def exceeds_safe_def js_gt_def MAX_SAFE_INTEGER_def MIN_SAFE_INTEGER_def
      split: if_splits)

lemma js_add_finite:
  assumes "\<not> isNaN x" and "\<not> exceeds_safe x" and "\<not> isNaN y" and "\<not> exceeds_safe y"
  shows "is_finite (js_add x y)"
proof -
  note a = safe_value [OF assms(1,2)] and b = safe_value [OF assms(3,4)]
  have "\<bar>value_of x + value_of y\<bar> < 2 ^ 53 + 2 ^ 53"
    using a b by linarith
  also have "\<dots> < (2 :: rat) ^ 1023" by simp
  finally have "is_finite (fl (value_of x + value_of y))" by (rule fl_finite)
  then show ?thesis
    using assms(1,3) a b by (simp add: js_add_def)
qed

lemma js_sub_finite:
  assumes "\<not> isNaN x" and "\<not> exceeds_safe x" and "\<not> isNaN y" and "\<not> exceeds_safe y"
  shows "is_finite (js_sub x y)"
  unfolding js_sub_def using assms safe_js_neg [of y] by (simp add: js_add_finite)

lemma js_mul_finite:
  assumes "\<not> isNaN x" and "\<not> exceeds_safe x" and "\<not> isNaN y" and "\<not> exceeds_safe y"
  shows "is_finite (js_mul x y)"
proof -
  note a = safe_value [OF assms(1,2)] and b = safe_value [OF assms(3,4)]
  have "\<bar>value_of x\<bar> * \<bar>value_of y\<bar> \<le> 2 ^ 53 * 2 ^ 53"
    using a b by (intro mult_mono) simp_all
  also have "\<dots> < (2 :: rat) ^ 1023" by simp
  finally have "\<bar>\<bar>value_of x\<bar> * \<bar>value_of y\<bar>\<bar> < 2 ^ 1023" by simp
  then have "is_finite (fl (\<bar>value_of x\<bar> * \<bar>value_of y\<bar>))" by (rule fl_finite)
  then show ?thesis
    using assms(1,3) a b by (simp add: js_mul_def signed_def is_finite_js_neg)
qed

section \<open>Sum, difference and product of operands in range\<close>

lemma value_of_js_neg: "value_of (js_neg x) = - value_of x"
  by (cases x) simp_all

lemma js_add_nearest:
  assumes "\<not> isNaN x" and "\<not> exceeds_safe x" and "\<not> isNaN y" and "\<not> exceeds_safe y"
  shows "nearest (value_of x + value_of y) (js_add x y)"
proof -
  note a = safe_value [OF assms(1,2)] and b = safe_value [OF assms(3,4)]
  have "\<bar>value_of x + value_of y\<bar> < 2 ^ 53 + 2 ^ 53"
    using a b by linarith
  also have "\<dots> < (2 :: rat) ^ 1023" by simp
  finally have n: "nearest (value_of x + value_of y) (fl (value_of x + value_of y))"
    by (rule nearest_fl)
  show ?thesis
  proof (cases "value_of x + value_of y = 0")
    case True
    then show ?thesis
      using assms(1,3) a b by (simp add: js_add_def nearest_def)
  next
    case False
    then have "\<not> (x = NZero \<and> y = NZero)" by auto
    with False have "js_add x y = fl (value_of x + value_of y)"
      using assms(1,3) a b unfolding js_add_def by (simp only: if_False simp_thms)
    with n show ?thesis by simp
  qed
qed

lemma js_sub_nearest:
  assumes "\<not> isNaN x" and "\<not> exceeds_safe x" and "\<not> isNaN y" and "\<not> exceeds_safe y"
  shows "nearest (value_of x - value_of y) (js_sub x y)"
  using js_add_nearest [OF assms(1,2), of "js_neg y"] safe_js_neg [OF assms(3,4)]
  by (simp add: js_sub_def value_of_js_neg)

lemma is_neg_signed:
  assumes "0 \<le> v"
  shows "is_neg (signed n (Fin v)) = n" and "value_of (signed n (Fin v)) = (if n then - v else v)"
    and "is_finite (signed n (Fin v))"
  using assms by (simp_all add: signed_def)

lemma is_neg_value:
  assumes "\<not> isNaN x" and "\<not> is_inf x" and "value_of x \<noteq> 0"
  shows "is_neg x = (value_of x < 0)"
  using assms by (cases x) (simp_all add: isNaN_def)

lemma js_mul_nearest:
  assumes "\<not> isNaN x" and "\<not> exceeds_safe x" and "\<not> isNaN y" and "\<not> exceeds_safe y"
  shows "nearest (value_of x * value_of y) (js_mul x y)"
    and "is_neg (js_mul x y) = (is_neg x \<noteq> is_neg y)"
proof -
  note a = safe_value [OF assms(1,2)] and b = safe_value [OF assms(3,4)]
  define q where "q = \<bar>value_of x\<bar> * \<bar>value_of y\<bar>"
  define n where "n = (is_neg x \<noteq> is_neg y)"
  have m: "js_mul x y = signed n (fl q)"
    using assms(1,3) a b by (simp add: js_mul_def q_def n_def)
  have "q \<le> 2 ^ 53 * 2 ^ 53"
    unfolding q_def using a b by (intro mult_mono) simp_all
  also have "\<dots> < (2 :: rat) ^ 1023" by simp
  finally have "\<bar>q\<bar> < 2 ^ 1023" by (simp add: q_def)
  then have nq: "nearest q (fl q)" by (rule nearest_fl)
  have q0: "0 \<le> q" by (simp add: q_def)
  obtain v where v: "fl q = Fin v" "0 \<le> v"
  proof (cases "q = 0")
    case True
    then have "fl q = Fin 0" by (simp add: fl_def)
    then show ?thesis using that by simp
  next
    case False
    with nq have "is_finite (fl q)" "\<not> is_neg (fl q)"
      using q0 by (simp_all add: nearest_def)
    then show ?thesis using that by (cases "fl q") simp_all
  qed
  show neg: "is_neg (js_mul x y) = (is_neg x \<noteq> is_neg y)"
    unfolding m v using is_neg_signed(1) [OF v(2)] by (simp add: n_def)
  show "nearest (value_of x * value_of y) (js_mul x y)"
  proof (cases "q = 0")
    case True
    then have z: "value_of x * value_of y = 0" by (simp add: q_def)
    from True v have "v = 0" by (simp add: fl_def)
    then show ?thesis
      unfolding m v nearest_def using z is_neg_signed [OF v(2), of n] by simp
  next
    case False
    then have nz: "value_of x \<noteq> 0" "value_of y \<noteq> 0" by (auto simp: q_def)
    have sx: "is_neg x = (value_of x < 0)" using assms(1) a nz(1) by (intro is_neg_value) simp_all
    have sy: "is_neg y = (value_of y < 0)" using assms(3) b nz(2) by (intro is_neg_value) simp_all
    have n: "n = (value_of x * value_of y < 0)"
      using nz by (auto simp: n_def sx sy mult_less_0_iff)
    have aq: "\<bar>value_of x * value_of y\<bar> = q" by (simp add: q_def abs_mult)
    from nq False v have acc: "\<bar>v - q\<bar> \<le> ulp q / 2" "is_integral (v / ulp q)"
      using q0 by (simp_all add: nearest_def)
    have nz': "value_of x * value_of y \<noteq> 0" using nz by simp
    note sg = is_neg_signed [OF v(2), of n]
    show ?thesis
    proof (cases n)
      case True
      with n aq have pq: "value_of x * value_of y = - q" by simp
      have "\<bar>- v - - q\<bar> = \<bar>v - q\<bar>" by (simp add: abs_minus_commute)
      with acc(1) have e: "\<bar>- v - - q\<bar> \<le> ulp q / 2" by (simp only:)
      have g: "is_integral (- v / ulp q)"
        using acc(2) is_integral_minus [of "v / ulp q"] by simp
      have "nearest (- q) (signed n (Fin v))"
        unfolding nearest_def using True sg e g False q0 by simp
      then show ?thesis unfolding m v pq .
    next
      case F: False
      with n aq have pq: "value_of x * value_of y = q" by simp
      have "nearest q (signed n (Fin v))"
        unfolding nearest_def using F sg acc False q0 by simp
      then show ?thesis unfolding m v pq .
    qed
  qed
qed

section \<open>Finite operands and the tests of the validator\<close>

lemma isNaN_Fin: "\<not> isNaN (Fin q)"
  by (simp add: isNaN_def)

lemma exceeds_safe_Fin: "exceeds_safe (Fin q) = (2 ^ 53 - 1 < q \<or> q < - (2 ^ 53 - 1))"
  by (simp add: exceeds_safe_def js_gt_def MAX_SAFE_INTEGER_def MIN_SAFE_INTEGER_def)

lemma exceeds_safe_inf: "exceeds_safe PInf \<and> exceeds_safe NInf"
  by (simp add: exceeds_safe_def js_gt_def MAX_SAFE_INTEGER_def MIN_SAFE_INTEGER_def)

lemma is_integral_of_int: "is_integral (of_int n)"
  by (simp add: is_integral_def)

lemma toString_3: "toString (Fin 3) = ''3''"
  by code_simp

lemma parse_0: "parseFloat (Some ''0'') = Fin 0"
  unfolding parseFloat_def option.case by code_simp

lemma parse_2: "parseFloat (Some ''2'') = Fin 2"
  unfolding parseFloat_def option.case by code_simp

lemma parse_3: "parseFloat (Some ''3'') = Fin 3"
  unfolding parseFloat_def option.case by code_simp

lemma parse_16: "parseFloat (Some ''16'') = Fin 16"
  unfolding parseFloat_def option.case by code_simp

lemma parse_m2: "parseFloat (Some ''-2'') = Fin (- 2)"
  unfolding parseFloat_def option.case by code_simp

lemma parse_m4: "parseFloat (Some ''-4'') = Fin (- 4)"
  unfolding parseFloat_def option.case by code_simp


lemma parse_m2p53: "parseFloat (Some ''-9007199254740992'') = Fin (- (2 ^ 53))"
  unfolding parseFloat_def option.case by code_simp









lemma mod_10_3: "js_mod (Fin 10) (Fin 3) = Fin 1"
  by code_simp

lemma sqrt_16: "js_sqrt (Fin 16) = Fin 4"
  by code_simp

lemma parse_01: "parseFloat (Some ''0.1'') = Fin (3602879701896397 / 36028797018963968)"
  unfolding parseFloat_def option.case by code_simp

lemma parse_02: "parseFloat (Some ''0.2'') = Fin (3602879701896397 / 18014398509481984)"
  unfolding parseFloat_def option.case by code_simp

lemma parse_03: "parseFloat (Some ''0.3'') = Fin (5404319552844595 / 18014398509481984)"
  unfolding parseFloat_def option.case by code_simp

lemma parse_4: "parseFloat (Some ''4'') = Fin 4"
  unfolding parseFloat_def option.case by code_simp

lemma parse_m3: "parseFloat (Some ''-3'') = Fin (- 3)"
  unfolding parseFloat_def option.case by code_simp

lemma parse_max: "parseFloat (Some ''9007199254740991'') = Fin 9007199254740991"
  unfolding parseFloat_def option.case by code_simp

lemma add_01_02:
  "js_add (Fin (3602879701896397 / 36028797018963968))
     (Fin (3602879701896397 / 18014398509481984)) = Fin (1351079888211149 / 4503599627370496)"
  by code_simp

lemma add_max_2: "js_add (Fin 9007199254740991) (Fin 2) = Fin 9007199254740992"
  by code_simp

lemma add_max_4: "js_add (Fin 9007199254740991) (Fin 4) = Fin 9007199254740996"
  by code_simp

lemma sub_03_01:
  "js_sub (Fin (5404319552844595 / 18014398509481984))
     (Fin (3602879701896397 / 36028797018963968)) = Fin (7205759403792793 / 36028797018963968)"
  by code_simp

lemma mul_m2_3: "js_mul (Fin (- 2)) (Fin 3) = Fin (- 6)"
  by code_simp

lemma mul_01_m3:
  "js_mul (Fin (3602879701896397 / 36028797018963968)) (Fin (- 3)) =
     Fin (- (1351079888211149 / 4503599627370496))"
  by code_simp

lemma mul_m2_0: "js_mul (Fin (- 2)) (Fin 0) = NZero"
  by code_simp

lemma add_instance:
  assumes "parseFloat (Some a) = Fin x" and "parseFloat (Some b) = Fin y"
    and "\<not> exceeds_safe (Fin x)" and "\<not> exceeds_safe (Fin y)"
  shows "fst (add_handler (qry a b) s) = Response 200 (Result (js_add (Fin x) (Fin y)))"
  using add_handler_ok [of "qry a b" s] assms by (simp add: qry_num1 qry_num2 isNaN_Fin)

lemma sub_instance:
  assumes "parseFloat (Some a) = Fin x" and "parseFloat (Some b) = Fin y"
    and "\<not> exceeds_safe (Fin x)" and "\<not> exceeds_safe (Fin y)"
  shows "fst (sub_handler (qry a b) s) = Response 200 (Result (js_sub (Fin x) (Fin y)))"
  using sub_handler_ok [of "qry a b" s] assms by (simp add: qry_num1 qry_num2 isNaN_Fin)

lemma mul_instance:
  assumes "parseFloat (Some a) = Fin x" and "parseFloat (Some b) = Fin y"
    and "\<not> exceeds_safe (Fin x)" and "\<not> exceeds_safe (Fin y)"
  shows "fst (mul_handler (qry a b) s) = Response 200 (Result (js_mul (Fin x) (Fin y)))"
  using mul_handler_ok [of "qry a b" s] assms by (simp add: qry_num1 qry_num2 isNaN_Fin)

lemma rounded_instances:
  "fst (add_handler (qry ''0.1'' ''0.2'') s) =
     Response 200 (Result (Fin (1351079888211149 / 4503599627370496)))"
  "fst (add_handler (qry ''9007199254740991'' ''2'') s) =
     Response 200 (Result (Fin 9007199254740992))"
  "fst (add_handler (qry ''9007199254740991'' ''4'') s) =
     Response 200 (Result (Fin 9007199254740996))"
  "fst (sub_handler (qry ''0.3'' ''0.1'') s) =
     Response 200 (Result (Fin (7205759403792793 / 36028797018963968)))"
  "fst (mul_handler (qry ''-2'' ''3'') s) = Response 200 (Result (Fin (- 6)))"
  "fst (mul_handler (qry ''0.1'' ''-3'') s) =
     Response 200 (Result (Fin (- (1351079888211149 / 4503599627370496))))"
  "fst (mul_handler (qry ''-2'' ''0'') s) = Response 200 (Result NZero)"
  using add_instance [OF parse_01 parse_02, of s] add_instance [OF parse_max parse_2, of s]
    add_instance [OF parse_max parse_4, of s] sub_instance [OF parse_03 parse_01, of s]
    mul_instance [OF parse_m2 parse_3, of s] mul_instance [OF parse_01 parse_m3, of s]
    mul_instance [OF parse_m2 parse_0, of s]
  by (simp_all only: add_01_02 add_max_2 add_max_4 sub_03_01 mul_m2_3 mul_01_m3 mul_m2_0)
     (simp_all add: exceeds_safe_Fin)

section \<open>Claims\<close>

text \<open>
  C1. For operands that are both numbers, the validator returns the division-by-zero
  code 2 exactly when the operator is \<^verbatim>\<open>"/"\<close>, whatever the second operand, or
  the operator is \<^verbatim>\<open>"%"\<close> and the second operand equals zero; so every request to
  \<^verbatim>\<open>/div\<close> whose two parameters parse to numbers is answered 400 with
  "Denominator cannot be 0 in division", also when the denominator is not zero.
\<close>

theorem division_by_zero_rule:
  assumes "\<not> isNaN num1" and "\<not> isNaN num2"
    and "\<not> isNaN (parseFloat (q ''num1''))" and "\<not> isNaN (parseFloat (q ''num2''))"
  shows "(fst (handleErrors operator num1 num2 s) = Code 2) =
           (operator = ''/'' \<or> operator = ''%'' \<and> js_eq num2 (Fin 0))
         \<and> fst (div_handler q s) =
             Response 400 (Message ''Denominator cannot be 0 in division'')"
  using assms by (simp add: handleErrors_code2_iff div_handler_numeric)

theorem division_by_zero_rule_witness:
  "fst (handleErrors ''/'' (Fin 10) (Fin 5) s0) = Code 2
   \<and> fst (handleErrors ''%'' (Fin 10) (Fin 5) s0) \<noteq> Code 2
   \<and> fst (div_handler (qry ''10'' ''5'') s0) =
       Response 400 (Message ''Denominator cannot be 0 in division'')"
proof -
  have n: "\<not> isNaN (Fin 10)" "\<not> isNaN (Fin 5)"
    by (simp_all add: isNaN_def)
  have p: "\<not> isNaN (parseFloat (qry ''10'' ''5'' ''num1''))"
          "\<not> isNaN (parseFloat (qry ''10'' ''5'' ''num2''))"
    by (simp_all add: qry_num1 qry_num2 parse_10 parse_5 isNaN_def)
  show ?thesis
    using division_by_zero_rule [OF n p, of "''/''" s0]
          division_by_zero_rule [OF n p, of "''%''" s0]
    by simp
qed

text \<open>
  C2. The claim is that the validator returns the code 0 whenever no rule matches, for
  every operator. The source returns 0 only in the last \<^verbatim>\<open>else\<close> of the chain: for
  \<^verbatim>\<open>"^"\<close> and \<^verbatim>\<open>"sqrt"\<close> the call ends without a value. Evaluated on operands
  that violate no rule, the validator gives \<open>Undefined\<close> for both and \<open>Code 0\<close> for
  \<^verbatim>\<open>"+"\<close>.
\<close>

theorem validator_without_outcome:
  "fst (handleErrors ''^'' (Fin 2) (Fin 3) s0) = Undefined
   \<and> fst (handleErrors ''sqrt'' (Fin 16) (Fin 0) s0) = Undefined
   \<and> fst (handleErrors ''+'' (Fin 2) (Fin 3) s0) = Code 0"
proof -
  have "is_integer (Fin 3)" using is_integral_of_int [of 3] by simp
  then have "\<not> regex_test (toString (Fin 3))"
    by (rule regex_test_integer) (simp add: exceeds_safe_Fin)
  then have "handleErrors ''^'' (Fin 2) (Fin 3) s0 =
      (Undefined, s0\<lparr>global_n2 := Some (toString (Fin 3))\<rparr>)"
    by (intro handleErrors_exp_undefined) (simp_all add: isNaN_Fin exceeds_safe_Fin)
  moreover have "handleErrors ''sqrt'' (Fin 16) (Fin 0) s0 = (Undefined, s0)"
    by (intro handleErrors_sqrt_undefined) (simp_all add: isNaN_Fin exceeds_safe_Fin)
  moreover have "handleErrors ''+'' (Fin 2) (Fin 3) s0 = (Code 0, s0)"
    by (intro handleErrors_no_error) (simp_all add: isNaN_Fin exceeds_safe_Fin)
  ultimately show ?thesis by simp
qed

text \<open>
  C3. A request to \<^verbatim>\<open>/div\<close> is never answered with "Either numbers are too large
  or too small": for the operator \<^verbatim>\<open>"/"\<close> the validator returns code 1 when an
  operand is not a number and code 2 otherwise, never code 3, and the response is one
  of the two messages for these codes.
\<close>

theorem div_never_out_of_range:
  "fst (handleErrors ''/'' num1 num2 s) = (if isNaN num1 \<or> isNaN num2 then Code 1 else Code 2)
   \<and> fst (handleErrors ''/'' num1 num2 s) \<noteq> Code 3
   \<and> fst (div_handler q s) \<noteq>
       Response 400 (Message ''Either numbers are too large or too small'')
   \<and> (fst (div_handler q s) = Response 400 (Message ''num1 and num2 must be numbers'')
        \<or> fst (div_handler q s) =
            Response 400 (Message ''Denominator cannot be 0 in division''))"
proof -
  have v: "fst (handleErrors ''/'' num1 num2 s) =
      (if isNaN num1 \<or> isNaN num2 then Code 1 else Code 2)"
    by (simp add: handleErrors_def)
  have d: "fst (div_handler q s) =
      (if isNaN (parseFloat (q ''num1'')) \<or> isNaN (parseFloat (q ''num2''))
       then Response 400 (Message ''num1 and num2 must be numbers'')
       else Response 400 (Message ''Denominator cannot be 0 in division''))"
    using div_handler_nan [of q s] div_handler_numeric [of q s] by auto
  show ?thesis
    unfolding v d by simp
qed

theorem div_never_out_of_range_witness:
  "fst (handleErrors ''/'' PInf (Fin 1) s0) = Code 2
   \<and> fst (div_handler (qry ''1e309'' ''1'') s0) =
       Response 400 (Message ''Denominator cannot be 0 in division'')"
proof -
  have "\<not> isNaN (parseFloat (qry ''1e309'' ''1'' ''num1''))"
       "\<not> isNaN (parseFloat (qry ''1e309'' ''1'' ''num2''))"
    by (simp_all add: qry_num1 qry_num2 parse_1e309 parse_1 isNaN_def)
  then have "fst (div_handler (qry ''1e309'' ''1'') s0) \<noteq>
      Response 400 (Message ''num1 and num2 must be numbers'')"
    by (simp add: div_handler_numeric)
  then show ?thesis
    using div_never_out_of_range [of PInf "Fin 1" s0 "qry ''1e309'' ''1''"]
    by (simp add: isNaN_def)
qed

text \<open>
  C4. Whatever the operator, when one of the operands is not a number the validator
  returns code 1, before any other rule is looked at, and logs the invalid input;
  every handler then answers 400 with the message that the parameters must be
  numbers. An absent parameter parses to \<open>NaN\<close>, and text does exactly when no
  number starts it; \<^verbatim>\<open>/add?num1=abc&num2=1\<close> is answered 400 with "num1 and num2
  must be numbers".
\<close>

theorem not_a_number_first:
  "(isNaN num1 \<or> isNaN num2 \<longrightarrow>
      handleErrors operator num1 num2 s =
        (Code 1, logger_error ''Invalid input: Input parameters are not numbers'' s))
   \<and> (isNaN (parseFloat (q ''num1'')) \<or> isNaN (parseFloat (q ''num2'')) \<longrightarrow>
        fst (add_handler q s) = Response 400 (Message ''num1 and num2 must be numbers'')
      \<and> fst (sub_handler q s) = Response 400 (Message ''num1 and num2 must be numbers'')
      \<and> fst (mul_handler q s) = Response 400 (Message ''num1 and num2 must be numbers'')
      \<and> fst (div_handler q s) = Response 400 (Message ''num1 and num2 must be numbers'')
      \<and> fst (exp_handler approx q s) =
          Response 400 (Message ''num1 and num2 must be numbers'')
      \<and> fst (mod_handler q s) = Response 400 (Message ''num1 and num2 must be numbers''))
   \<and> (isNaN (parseFloat (q ''num1'')) \<longrightarrow>
        fst (sqrt_handler q s) = Response 400 (Message ''num1 must be a number''))
   \<and> parseFloat None = NaN
   \<and> isNaN (parseFloat (Some t)) = (\<not> starts_number t)
   \<and> fst (add_handler (qry ''abc'' ''1'') s) =
       Response 400 (Message ''num1 and num2 must be numbers'')"
proof -
  have "isNaN (parseFloat (qry ''abc'' ''1'' ''num1''))"
    by (simp add: qry_num1 parse_abc isNaN_def)
  then have "fst (add_handler (qry ''abc'' ''1'') s) =
      Response 400 (Message ''num1 and num2 must be numbers'')"
    by (simp add: add_handler_nan)
  moreover have "isNaN (parseFloat (Some t)) = (\<not> starts_number t)"
    by (simp add: parseFloat_def parseFloat_str_NaN_iff)
  ultimately show ?thesis
    by (simp add: handleErrors_nan add_handler_nan sub_handler_nan mul_handler_nan
        div_handler_nan exp_handler_nan mod_handler_nan sqrt_handler_nan parse_absent)
qed

theorem not_a_number_first_witness:
  "handleErrors ''%'' (Fin 1) NaN s0 =
     (Code 1, logger_error ''Invalid input: Input parameters are not numbers'' s0)
   \<and> fst (mod_handler (qry ''10'' ''zero'') s0) =
       Response 400 (Message ''num1 and num2 must be numbers'')
   \<and> fst (sqrt_handler Map.empty s0) = Response 400 (Message ''num1 must be a number'')
   \<and> parseFloat (Some ''zero'') = NaN"
proof -
  have d: "\<not> starts_number ''zero''"
    by code_simp
  have n: "isNaN (Fin 1) \<or> isNaN NaN"
    by (simp add: isNaN_def)
  have a: "isNaN (parseFloat (Map.empty ''num1''))"
    by (simp add: parse_absent isNaN_def)
  note w = not_a_number_first [of "Fin 1" NaN "''%''" s0 "qry ''10'' ''zero''" _ "''zero''"]
  note v = not_a_number_first [of "Fin 1" NaN "''%''" s0 Map.empty _ "''zero''"]
  from w d have z: "parseFloat (Some ''zero'') = NaN" by (simp add: isNaN_def)
  then have "isNaN (parseFloat (qry ''10'' ''zero'' ''num1''))
      \<or> isNaN (parseFloat (qry ''10'' ''zero'' ''num2''))"
    by (simp add: qry_num2 isNaN_def)
  with w have "fst (mod_handler (qry ''10'' ''zero'') s0) =
      Response 400 (Message ''num1 and num2 must be numbers'')" by blast
  moreover from v a have "fst (sqrt_handler Map.empty s0) =
      Response 400 (Message ''num1 must be a number'')" by blast
  moreover from w n have "handleErrors ''%'' (Fin 1) NaN s0 =
     (Code 1, logger_error ''Invalid input: Input parameters are not numbers'' s0)" by blast
  ultimately show ?thesis using z by simp
qed

text \<open>
  C5, as stated: whenever an operand of two numbers exceeds the safe-integer range, the
  validator returns the out-of-range code and the handler answers with the out-of-range
  message. It fails where the division-by-zero rule, which is tested first, matches:
  \<^verbatim>\<open>/mod?num1=1e309&num2=0\<close> has a first operand beyond the range and is
  answered "Denominator cannot be 0 in modulo", from code 2.
\<close>

theorem out_of_range_counterexample:
  "\<not> isNaN (parseFloat (qry ''1e309'' ''0'' ''num1''))
   \<and> \<not> isNaN (parseFloat (qry ''1e309'' ''0'' ''num2''))
   \<and> exceeds_safe (parseFloat (qry ''1e309'' ''0'' ''num1''))
   \<and> fst (handleErrors ''%'' (parseFloat (qry ''1e309'' ''0'' ''num1''))
            (parseFloat (qry ''1e309'' ''0'' ''num2'')) s0) = Code 2
   \<and> fst (mod_handler (qry ''1e309'' ''0'') s0) =
       Response 400 (Message ''Denominator cannot be 0 in modulo'')"
proof -
  have "handleErrors ''%'' PInf (Fin 0) s0 =
      (Code 2, logger_error ''Zero division: Division by 0 is not possible'' s0)"
    by (intro handleErrors_zero_division) (simp_all add: isNaN_def)
  moreover have "fst (mod_handler (qry ''1e309'' ''0'') s0) =
      Response 400 (Message ''Denominator cannot be 0 in modulo'')"
    by (intro mod_handler_zero) (simp_all add: qry_num1 qry_num2 parse_1e309 parse_0 isNaN_def)
  ultimately show ?thesis
    by (simp add: qry_num1 qry_num2 parse_1e309 parse_0 isNaN_def exceeds_safe_inf)
qed

text \<open>
  C5, amended: for two operands that are numbers, one of them above \<open>2\<^sup>5\<^sup>3 - 1\<close> or
  below \<open>- (2\<^sup>5\<^sup>3 - 1)\<close>, and an operator other than \<^verbatim>\<open>"/"\<close> that is not
  \<^verbatim>\<open>"%"\<close> with a second operand equal to zero, the validator returns code 3 and
  logs the exceeded range. \<^verbatim>\<open>/add\<close>, \<^verbatim>\<open>/sub\<close>, \<^verbatim>\<open>/mul\<close> and \<^verbatim>\<open>/exp\<close>
  then answer 400 with "Either numbers are too large or too small", and \<^verbatim>\<open>/mod\<close>
  does so when its second operand is not zero. \<^verbatim>\<open>/sqrt\<close>, whose only operand is
  \<^verbatim>\<open>num1\<close>, answers 400 with "Numbers is too large or too small" whenever that
  operand is a number out of the range, whatever else the query holds.
  \<^verbatim>\<open>/add?num1=1e309&num2=1\<close> is answered with the out-of-range message.
\<close>

theorem out_of_range_rule:
  "(\<not> isNaN num1 \<and> \<not> isNaN num2 \<and> (exceeds_safe num1 \<or> exceeds_safe num2)
      \<and> operator \<noteq> ''/'' \<and> (operator \<noteq> ''%'' \<or> \<not> js_eq num2 (Fin 0)) \<longrightarrow>
    handleErrors operator num1 num2 s =
      (Code 3, logger_error
         ''Range exceeded: Input parameters have exceeded min/max range limits'' s))
   \<and> (\<not> isNaN (parseFloat (q ''num1'')) \<and> \<not> isNaN (parseFloat (q ''num2''))
        \<and> (exceeds_safe (parseFloat (q ''num1'')) \<or> exceeds_safe (parseFloat (q ''num2''))) \<longrightarrow>
      fst (add_handler q s) =
        Response 400 (Message ''Either numbers are too large or too small'')
      \<and> fst (sub_handler q s) =
          Response 400 (Message ''Either numbers are too large or too small'')
      \<and> fst (mul_handler q s) =
          Response 400 (Message ''Either numbers are too large or too small'')
      \<and> fst (exp_handler approx q s) =
          Response 400 (Message ''Either numbers are too large or too small'')
      \<and> (\<not> js_eq (parseFloat (q ''num2'')) (Fin 0) \<longrightarrow>
            fst (mod_handler q s) =
              Response 400 (Message ''Either numbers are too large or too small'')))
   \<and> (\<not> isNaN (parseFloat (q ''num1'')) \<and> exceeds_safe (parseFloat (q ''num1'')) \<longrightarrow>
        fst (sqrt_handler q s) = Response 400 (Message ''Numbers is too large or too small''))
   \<and> fst (add_handler (qry ''1e309'' ''1'') s) =
       Response 400 (Message ''Either numbers are too large or too small'')"
proof -
  have "fst (add_handler (qry ''1e309'' ''1'') s) =
      Response 400 (Message ''Either numbers are too large or too small'')"
    by (intro add_handler_range)
       (simp_all add: qry_num1 qry_num2 parse_1e309 parse_1 isNaN_def exceeds_safe_inf)
  then show ?thesis
    by (simp add: handleErrors_range add_handler_range sub_handler_range mul_handler_range
        exp_handler_range mod_handler_range sqrt_handler_range)
qed

theorem out_of_range_rule_witness:
  "handleErrors ''*'' PInf (Fin 1) s0 =
     (Code 3, logger_error
        ''Range exceeded: Input parameters have exceeded min/max range limits'' s0)
   \<and> fst (mul_handler (qry ''1e309'' ''1'') s0) =
       Response 400 (Message ''Either numbers are too large or too small'')
   \<and> fst (mod_handler (qry ''1e309'' ''1'') s0) =
       Response 400 (Message ''Either numbers are too large or too small'')
   \<and> fst (sqrt_handler [''num1'' \<mapsto> ''1e309''] s0) =
       Response 400 (Message ''Numbers is too large or too small'')"
proof -
  have v: "\<not> isNaN PInf \<and> \<not> isNaN (Fin 1) \<and> (exceeds_safe PInf \<or> exceeds_safe (Fin 1))
      \<and> ''*'' \<noteq> ''/'' \<and> (''*'' \<noteq> ''%'' \<or> \<not> js_eq (Fin 1) (Fin 0))"
    by (simp add: isNaN_def exceeds_safe_inf)
  have h: "\<not> isNaN (parseFloat (qry ''1e309'' ''1'' ''num1''))
      \<and> \<not> isNaN (parseFloat (qry ''1e309'' ''1'' ''num2''))
      \<and> (exceeds_safe (parseFloat (qry ''1e309'' ''1'' ''num1''))
          \<or> exceeds_safe (parseFloat (qry ''1e309'' ''1'' ''num2'')))"
    by (simp add: isNaN_def exceeds_safe_inf qry_num1 qry_num2 parse_1e309 parse_1)
  have z: "\<not> js_eq (parseFloat (qry ''1e309'' ''1'' ''num2'')) (Fin 0)"
    by (simp add: qry_num2 parse_1)
  have r: "\<not> isNaN (parseFloat ([''num1'' \<mapsto> ''1e309''] ''num1''))
      \<and> exceeds_safe (parseFloat ([''num1'' \<mapsto> ''1e309''] ''num1''))"
    by (simp add: isNaN_def exceeds_safe_inf parse_1e309)
  note w = out_of_range_rule [of PInf "Fin 1" "''*''" s0 "qry ''1e309'' ''1''" approx_none]
  note u = out_of_range_rule [of PInf "Fin 1" "''*''" s0 "[''num1'' \<mapsto> ''1e309'']" approx_none]
  from w v have "handleErrors ''*'' PInf (Fin 1) s0 =
     (Code 3, logger_error
        ''Range exceeded: Input parameters have exceeded min/max range limits'' s0)"
    by blast
  moreover from w h have "fst (mul_handler (qry ''1e309'' ''1'') s0) =
       Response 400 (Message ''Either numbers are too large or too small'')"
    by blast
  moreover from w h z have "fst (mod_handler (qry ''1e309'' ''1'') s0) =
       Response 400 (Message ''Either numbers are too large or too small'')"
    by blast
  moreover from u r have "fst (sqrt_handler [''num1'' \<mapsto> ''1e309''] s0) =
       Response 400 (Message ''Numbers is too large or too small'')"
    by blast
  ultimately show ?thesis by blast
qed




text \<open>
  C7, as stated: on \<^verbatim>\<open>/mod\<close>, a zero second operand is answered with "Denominator
  cannot be 0 in modulo". It fails when the first operand is not a number, which the
  validator tests first: \<^verbatim>\<open>/mod?num1=abc&num2=0\<close> has a zero second operand and
  is answered "num1 and num2 must be numbers".
\<close>

theorem modulo_counterexample:
  "js_eq (parseFloat (qry ''abc'' ''0'' ''num2'')) (Fin 0)
   \<and> fst (mod_handler (qry ''abc'' ''0'') s0) =
       Response 400 (Message ''num1 and num2 must be numbers'')"
proof -
  have "fst (mod_handler (qry ''abc'' ''0'') s0) =
      Response 400 (Message ''num1 and num2 must be numbers'')"
    by (intro mod_handler_nan) (simp add: qry_num1 parse_abc isNaN_def)
  then show ?thesis by (simp add: qry_num2 parse_0)
qed

text \<open>
  C7, amended: on \<^verbatim>\<open>/mod\<close>, a first operand that is a number with a second operand
  equal to zero is answered 400 with "Denominator cannot be 0 in modulo"; two numbers
  within the safe-integer range, the second not zero, are answered 200 with the
  remainder; \<^verbatim>\<open>/mod?num1=10&num2=0\<close> gives the 400 and \<^verbatim>\<open>/mod?num1=10&num2=3\<close>
  gives 200 with the result 1.
\<close>

theorem modulo_rule:
  "(\<not> isNaN (parseFloat (q ''num1'')) \<and> js_eq (parseFloat (q ''num2'')) (Fin 0) \<longrightarrow>
      fst (mod_handler q s) = Response 400 (Message ''Denominator cannot be 0 in modulo''))
   \<and> (\<not> isNaN (parseFloat (q ''num1'')) \<and> \<not> isNaN (parseFloat (q ''num2''))
        \<and> \<not> exceeds_safe (parseFloat (q ''num1'')) \<and> \<not> exceeds_safe (parseFloat (q ''num2''))
        \<and> \<not> js_eq (parseFloat (q ''num2'')) (Fin 0) \<longrightarrow>
      fst (mod_handler q s) =
        Response 200 (Result (js_mod (parseFloat (q ''num1'')) (parseFloat (q ''num2'')))))
   \<and> fst (mod_handler (qry ''10'' ''0'') s) =
       Response 400 (Message ''Denominator cannot be 0 in modulo'')
   \<and> fst (mod_handler (qry ''10'' ''3'') s) = Response 200 (Result (Fin 1))"
proof -
  have zero: "fst (mod_handler (qry ''10'' ''0'') s) =
      Response 400 (Message ''Denominator cannot be 0 in modulo'')"
    by (intro mod_handler_zero) (simp_all add: qry_num1 qry_num2 parse_10 parse_0 isNaN_Fin)
  have "fst (mod_handler (qry ''10'' ''3'') s) =
      Response 200 (Result (js_mod (parseFloat (qry ''10'' ''3'' ''num1''))
        (parseFloat (qry ''10'' ''3'' ''num2''))))"
    by (intro mod_handler_ok)
       (simp_all add: qry_num1 qry_num2 parse_10 parse_3 isNaN_Fin exceeds_safe_Fin)
  then have rem: "fst (mod_handler (qry ''10'' ''3'') s) = Response 200 (Result (Fin 1))"
    by (simp add: qry_num1 qry_num2 parse_10 parse_3 mod_10_3)
  show ?thesis
    using zero rem by (simp add: mod_handler_zero mod_handler_ok)
qed

theorem modulo_rule_witness:
  "fst (mod_handler (qry ''3'' ''0'') s0) =
     Response 400 (Message ''Denominator cannot be 0 in modulo'')
   \<and> fst (mod_handler (qry ''3'' ''10'') s0) =
       Response 200 (Result (js_mod (Fin 3) (Fin 10)))"
proof -
  have a: "\<not> isNaN (parseFloat (qry ''3'' ''0'' ''num1''))
      \<and> js_eq (parseFloat (qry ''3'' ''0'' ''num2'')) (Fin 0)"
    by (simp add: qry_num1 qry_num2 parse_3 parse_0 isNaN_Fin)
  have b: "\<not> isNaN (parseFloat (qry ''3'' ''10'' ''num1''))
      \<and> \<not> isNaN (parseFloat (qry ''3'' ''10'' ''num2''))
      \<and> \<not> exceeds_safe (parseFloat (qry ''3'' ''10'' ''num1''))
      \<and> \<not> exceeds_safe (parseFloat (qry ''3'' ''10'' ''num2''))
      \<and> \<not> js_eq (parseFloat (qry ''3'' ''10'' ''num2'')) (Fin 0)"
    by (simp add: qry_num1 qry_num2 parse_3 parse_10 isNaN_Fin exceeds_safe_Fin)
  from a modulo_rule [of "qry ''3'' ''0''" s0]
  have "fst (mod_handler (qry ''3'' ''0'') s0) =
      Response 400 (Message ''Denominator cannot be 0 in modulo'')" by blast
  moreover from b modulo_rule [of "qry ''3'' ''10''" s0]
  have "fst (mod_handler (qry ''3'' ''10'') s0) =
      Response 200 (Result (js_mod (parseFloat (qry ''3'' ''10'' ''num1''))
        (parseFloat (qry ''3'' ''10'' ''num2''))))" by blast
  ultimately show ?thesis
    by (simp add: qry_num1 qry_num2 parse_3 parse_10)
qed

text \<open>
  C8, as stated: on \<^verbatim>\<open>/sqrt\<close>, a negative operand is answered with "Square root of
  negative numbers is not supported". It fails for a negative operand below the
  safe-integer range, which the validator tests first:
  \<^verbatim>\<open>/sqrt?num1=-9007199254740992\<close> is answered "Numbers is too large or too small".
\<close>

theorem square_root_counterexample:
  "js_lt (parseFloat ([''num1'' \<mapsto> ''-9007199254740992''] ''num1'')) (Fin 0)
   \<and> fst (sqrt_handler [''num1'' \<mapsto> ''-9007199254740992''] s0) =
       Response 400 (Message ''Numbers is too large or too small'')"
proof -
  have "fst (sqrt_handler [''num1'' \<mapsto> ''-9007199254740992''] s0) =
      Response 400 (Message ''Numbers is too large or too small'')"
    by (intro sqrt_handler_range) (simp_all add: parse_m2p53 isNaN_Fin exceeds_safe_Fin)
  then show ?thesis by (simp add: parse_m2p53)
qed

text \<open>
  C8, amended: on \<^verbatim>\<open>/sqrt\<close>, a negative number within the safe-integer range is
  answered 400 with "Square root of negative numbers is not supported", and a number
  within the range that is not negative is answered 200 with its square root;
  \<^verbatim>\<open>/sqrt?num1=-4\<close> gives the 400 and \<^verbatim>\<open>/sqrt?num1=16\<close> gives 200 with the
  result 4.
\<close>

theorem square_root_rule:
  assumes "\<not> isNaN (parseFloat (q ''num1''))" and "\<not> exceeds_safe (parseFloat (q ''num1''))"
  shows "(js_lt (parseFloat (q ''num1'')) (Fin 0) \<longrightarrow>
            fst (sqrt_handler q s) =
              Response 400 (Message ''Square root of negative numbers is not supported''))
         \<and> (\<not> js_lt (parseFloat (q ''num1'')) (Fin 0) \<longrightarrow>
              fst (sqrt_handler q s) =
                Response 200 (Result (js_sqrt (parseFloat (q ''num1'')))))
         \<and> fst (sqrt_handler [''num1'' \<mapsto> ''-4''] s) =
             Response 400 (Message ''Square root of negative numbers is not supported'')
         \<and> fst (sqrt_handler [''num1'' \<mapsto> ''16''] s) = Response 200 (Result (Fin 4))"
proof -
  have neg: "fst (sqrt_handler [''num1'' \<mapsto> ''-4''] s) =
      Response 400 (Message ''Square root of negative numbers is not supported'')"
    by (intro sqrt_handler_negative) (simp_all add: parse_m4 isNaN_Fin exceeds_safe_Fin)
  have "fst (sqrt_handler [''num1'' \<mapsto> ''16''] s) =
      Response 200 (Result (js_sqrt (parseFloat ([''num1'' \<mapsto> ''16''] ''num1''))))"
    by (intro sqrt_handler_ok) (simp_all add: parse_16 isNaN_Fin exceeds_safe_Fin)
  then have root: "fst (sqrt_handler [''num1'' \<mapsto> ''16''] s) = Response 200 (Result (Fin 4))"
    by (simp add: parse_16 sqrt_16 del: js_sqrt.simps)
  show ?thesis
    using assms neg root by (simp add: sqrt_handler_negative sqrt_handler_ok)
qed

theorem square_root_rule_witness:
  "fst (sqrt_handler [''num1'' \<mapsto> ''-2''] s0) =
     Response 400 (Message ''Square root of negative numbers is not supported'')
   \<and> fst (sqrt_handler [''num1'' \<mapsto> ''0''] s0) = Response 200 (Result (Fin 0))"
proof -
  have a: "\<not> isNaN (parseFloat ([''num1'' \<mapsto> ''-2''] ''num1''))"
    "\<not> exceeds_safe (parseFloat ([''num1'' \<mapsto> ''-2''] ''num1''))"
    by (simp_all add: parse_m2 isNaN_Fin exceeds_safe_Fin)
  have b: "\<not> isNaN (parseFloat ([''num1'' \<mapsto> ''0''] ''num1''))"
    "\<not> exceeds_safe (parseFloat ([''num1'' \<mapsto> ''0''] ''num1''))"
    by (simp_all add: parse_0 isNaN_Fin exceeds_safe_Fin)
  show ?thesis
    using square_root_rule [of "[''num1'' \<mapsto> ''-2'']" s0, OF a]
      square_root_rule [of "[''num1'' \<mapsto> ''0'']" s0, OF b]
    by (simp add: parse_m2 parse_0)
qed

text \<open>
  C9. For two operands that are numbers within the safe-integer range (which excludes
  the infinities), \<^verbatim>\<open>/add\<close> answers 200 with the sum of the operands in double
  arithmetic, and likewise \<^verbatim>\<open>/sub\<close> with the difference and \<^verbatim>\<open>/mul\<close> with the
  product. Each result is the exact sum, difference or product rounded to a nearest
  double, with its sign (the product of a zero has the sign the operands give it). Where
  two doubles are as near, the even one is taken: \<open>0.1 + 0.2\<close> is
  \<open>0.30000000000000004\<close>, \<open>9007199254740991 + 2\<close> is \<open>9007199254740992\<close> and
  \<open>9007199254740991 + 4\<close> is \<open>9007199254740996\<close>; \<open>0.3 - 0.1\<close> is
  \<open>0.19999999999999998\<close>, \<open>-2 * 3\<close> is \<open>-6\<close>, \<open>0.1 * -3\<close> is
  \<open>-0.30000000000000004\<close> and \<open>-2 * 0\<close> is \<open>-0\<close>.
\<close>

theorem sum_difference_product:
  assumes "num1 = parseFloat (q ''num1'')" and "num2 = parseFloat (q ''num2'')"
    and "\<not> isNaN num1" and "\<not> isNaN num2"
    and "\<not> exceeds_safe num1" and "\<not> exceeds_safe num2"
  shows "fst (add_handler q s) = Response 200 (Result (js_add num1 num2))
         \<and> fst (sub_handler q s) = Response 200 (Result (js_sub num1 num2))
         \<and> fst (mul_handler q s) = Response 200 (Result (js_mul num1 num2))
         \<and> nearest (value_of num1 + value_of num2) (js_add num1 num2)
         \<and> nearest (value_of num1 - value_of num2) (js_sub num1 num2)
         \<and> nearest (value_of num1 * value_of num2) (js_mul num1 num2)
         \<and> is_neg (js_mul num1 num2) = (is_neg num1 \<noteq> is_neg num2)
         \<and> js_add num1 num2 =
             (if num1 = NZero \<and> num2 = NZero then NZero
              else if value_of num1 + value_of num2 = 0 then Fin 0
              else fl (value_of num1 + value_of num2))
         \<and> js_sub num1 num2 = js_add num1 (js_neg num2)
         \<and> js_mul num1 num2 =
             signed (is_neg num1 \<noteq> is_neg num2) (fl (\<bar>value_of num1\<bar> * \<bar>value_of num2\<bar>))
         \<and> is_finite (js_add num1 num2) \<and> is_finite (js_sub num1 num2)
         \<and> is_finite (js_mul num1 num2)
         \<and> fst (add_handler (qry ''0.1'' ''0.2'') s) =
             Response 200 (Result (Fin (1351079888211149 / 4503599627370496)))
         \<and> fst (add_handler (qry ''9007199254740991'' ''2'') s) =
             Response 200 (Result (Fin 9007199254740992))
         \<and> fst (add_handler (qry ''9007199254740991'' ''4'') s) =
             Response 200 (Result (Fin 9007199254740996))
         \<and> fst (sub_handler (qry ''0.3'' ''0.1'') s) =
             Response 200 (Result (Fin (7205759403792793 / 36028797018963968)))
         \<and> fst (mul_handler (qry ''-2'' ''3'') s) = Response 200 (Result (Fin (- 6)))
         \<and> fst (mul_handler (qry ''0.1'' ''-3'') s) =
             Response 200 (Result (Fin (- (1351079888211149 / 4503599627370496))))
         \<and> fst (mul_handler (qry ''-2'' ''0'') s) = Response 200 (Result NZero)"
proof -
  note v1 = safe_value [OF assms(3,5)] and v2 = safe_value [OF assms(4,6)]
  have add: "js_add num1 num2 =
      (if num1 = NZero \<and> num2 = NZero then NZero
       else if value_of num1 + value_of num2 = 0 then Fin 0
       else fl (value_of num1 + value_of num2))"
    using assms(3,4) v1 v2 by (simp add: js_add_def)
  have mul: "js_mul num1 num2 =
      signed (is_neg num1 \<noteq> is_neg num2) (fl (\<bar>value_of num1\<bar> * \<bar>value_of num2\<bar>))"
    using assms(3,4) v1 v2 by (simp add: js_mul_def)
  have sub: "js_sub num1 num2 = js_add num1 (js_neg num2)"
    by (simp add: js_sub_def)
  have fin: "is_finite (js_add num1 num2)" "is_finite (js_sub num1 num2)"
    "is_finite (js_mul num1 num2)"
    using assms(3-6) by (simp_all add: js_add_finite js_sub_finite js_mul_finite)
  have near: "nearest (value_of num1 + value_of num2) (js_add num1 num2)"
    "nearest (value_of num1 - value_of num2) (js_sub num1 num2)"
    "nearest (value_of num1 * value_of num2) (js_mul num1 num2)"
    "is_neg (js_mul num1 num2) = (is_neg num1 \<noteq> is_neg num2)"
    using assms(3-6) by (simp_all add: js_add_nearest js_sub_nearest js_mul_nearest)
  have resp: "fst (add_handler q s) = Response 200 (Result (js_add num1 num2))"
    "fst (sub_handler q s) = Response 200 (Result (js_sub num1 num2))"
    "fst (mul_handler q s) = Response 200 (Result (js_mul num1 num2))"
    using assms by (simp_all add: add_handler_ok sub_handler_ok mul_handler_ok)
  note inst = rounded_instances [of s]
  from resp near add sub mul fin inst show ?thesis
    by (intro conjI)
qed

theorem sum_difference_product_witness:
  "fst (add_handler (qry ''0.1'' ''0.2'') s0) =
     Response 200 (Result (js_add (Fin (3602879701896397 / 36028797018963968))
       (Fin (3602879701896397 / 18014398509481984))))
   \<and> js_add (Fin (3602879701896397 / 36028797018963968))
        (Fin (3602879701896397 / 18014398509481984)) =
      Fin (1351079888211149 / 4503599627370496)
   \<and> fst (mul_handler (qry ''-2'' ''3'') s0) = Response 200 (Result (js_mul (Fin (- 2)) (Fin 3)))
   \<and> nearest (- 6) (js_mul (Fin (- 2)) (Fin 3))
   \<and> is_neg (js_mul (Fin (- 2)) (Fin 3))
   \<and> fst (mul_handler (qry ''-2'' ''3'') s0) = Response 200 (Result (Fin (- 6)))"
proof -
  have h: "Fin (3602879701896397 / 36028797018963968) = parseFloat (qry ''0.1'' ''0.2'' ''num1'')"
    "Fin (3602879701896397 / 18014398509481984) = parseFloat (qry ''0.1'' ''0.2'' ''num2'')"
    "\<not> isNaN (Fin (3602879701896397 / 36028797018963968))"
    "\<not> isNaN (Fin (3602879701896397 / 18014398509481984))"
    "\<not> exceeds_safe (Fin (3602879701896397 / 36028797018963968))"
    "\<not> exceeds_safe (Fin (3602879701896397 / 18014398509481984))"
    by (simp_all add: qry_num1 qry_num2 parse_01 parse_02 isNaN_Fin exceeds_safe_Fin)
  have k: "Fin (- 2) = parseFloat (qry ''-2'' ''3'' ''num1'')"
    "Fin 3 = parseFloat (qry ''-2'' ''3'' ''num2'')"
    "\<not> isNaN (Fin (- 2))" "\<not> isNaN (Fin 3)"
    "\<not> exceeds_safe (Fin (- 2))" "\<not> exceeds_safe (Fin 3)"
    by (simp_all add: qry_num1 qry_num2 parse_m2 parse_3 isNaN_Fin exceeds_safe_Fin)
  note w = sum_difference_product [OF h, of s0]
  note u = sum_difference_product [OF k, of s0]
  from w have 1: "fst (add_handler (qry ''0.1'' ''0.2'') s0) =
     Response 200 (Result (js_add (Fin (3602879701896397 / 36028797018963968))
       (Fin (3602879701896397 / 18014398509481984))))" by blast
  from w have 2: "fst (add_handler (qry ''0.1'' ''0.2'') s0) =
     Response 200 (Result (Fin (1351079888211149 / 4503599627370496)))" by blast
  from 1 2 have 3: "js_add (Fin (3602879701896397 / 36028797018963968))
        (Fin (3602879701896397 / 18014398509481984)) =
      Fin (1351079888211149 / 4503599627370496)" by simp
  from u have 4: "fst (mul_handler (qry ''-2'' ''3'') s0) =
      Response 200 (Result (js_mul (Fin (- 2)) (Fin 3)))" by blast
  from u have "nearest (value_of (Fin (- 2)) * value_of (Fin 3)) (js_mul (Fin (- 2)) (Fin 3))"
    by blast
  then have 5: "nearest (- 6) (js_mul (Fin (- 2)) (Fin 3))" by simp
  from u have "is_neg (js_mul (Fin (- 2)) (Fin 3)) = (is_neg (Fin (- 2)) \<noteq> is_neg (Fin 3))"
    by blast
  then have 6: "is_neg (js_mul (Fin (- 2)) (Fin 3))" by simp
  from u have 7: "fst (mul_handler (qry ''-2'' ''3'') s0) = Response 200 (Result (Fin (- 6)))"
    by blast
  from 1 3 4 5 6 7 show ?thesis by blast
qed

text \<open>
  C10. The claim is that the validator writes no state that outlives the call, except
  the records of the logger. The source assigns \<^verbatim>\<open>n2 = num2.toString()\<close> to a
  variable it never declares, which creates a global: after the validation of
  \<^verbatim>\<open>/exp?num1=2&num2=3\<close>, in a state where \<^verbatim>\<open>n2\<close> did not exist, the global
  \<^verbatim>\<open>n2\<close> holds \<^verbatim>\<open>"3"\<close>, and still does when the handler has answered.
  (The code returned and the records logged do not depend on the value found in
  \<^verbatim>\<open>n2\<close>, by \<open>handleErrors_ignores_global\<close>.)
\<close>

theorem validator_leaves_global:
  "global_n2 s0 = None
   \<and> global_n2 (snd (handleErrors ''^'' (Fin 2) (Fin 3) s0)) = Some ''3''
   \<and> logs (snd (handleErrors ''^'' (Fin 2) (Fin 3) s0)) = logs s0
   \<and> global_n2 (snd (exp_handler approx_none (qry ''2'' ''3'') s0)) = Some ''3''"
proof -
  have "is_integer (Fin 3)" using is_integral_of_int [of 3] by simp
  then have "\<not> regex_test (toString (Fin 3))"
    by (rule regex_test_integer) (simp add: exceeds_safe_Fin)
  then have v: "handleErrors ''^'' (Fin 2) (Fin 3) s0 =
      (Undefined, s0\<lparr>global_n2 := Some (toString (Fin 3))\<rparr>)"
    by (intro handleErrors_exp_undefined) (simp_all add: isNaN_Fin exceeds_safe_Fin)
  have h: "global_n2 (snd (exp_handler approx_none (qry ''2'' ''3'') s0)) = Some ''3''"
    by (simp add: exp_handler_def Let_def qry_num1 qry_num2 parse_2 parse_3 v toString_3
        logger_info_def del: toString.simps)
  have g: "global_n2 s0 = None" by (simp add: s0_def)
  have a: "global_n2 (snd (handleErrors ''^'' (Fin 2) (Fin 3) s0)) = Some ''3''"
    by (simp add: v toString_3 del: toString.simps)
  have l: "logs (snd (handleErrors ''^'' (Fin 2) (Fin 3) s0)) = logs s0"
    by (simp add: v)
  from g a l h show ?thesis by blast
qed

end
